theory Spec2Isabelle
  imports Complex_Main "HOL-Library.Product_Lexorder" "HOL-Library.Multiset"
begin

section \<open>Values of the host language\<close>

subsection \<open>Floats\<close>

text \<open>
  Amounts are Python floats (\<open>db.Float\<close> columns, \<open>float(...)\<close> of a form field):
  IEEE 754 binary64 numbers. A float is a finite double, an infinity or NaN; a finite
  double is given by the real number it denotes. The two zeros are one value here and
  NaN has no payload: the handlers subtract, multiply and compare, which tells neither
  apart.
\<close>

datatype pyfloat = Fin real | PInf | NInf | NaN

text \<open>\<open>a < b\<close> on floats: every comparison with NaN is false.\<close>

fun flt :: "pyfloat \<Rightarrow> pyfloat \<Rightarrow> bool" where
  "flt NaN _ = False"
| "flt _ NaN = False"
| "flt (Fin a) (Fin b) = (a < b)"
| "flt PInf _ = False"
| "flt _ PInf = True"
| "flt NInf NInf = False"
| "flt NInf (Fin _) = True"
| "flt (Fin _) NInf = False"

text \<open>\<open>a <= b\<close> on floats.\<close>

fun fle :: "pyfloat \<Rightarrow> pyfloat \<Rightarrow> bool" where
  "fle NaN _ = False"
| "fle _ NaN = False"
| "fle (Fin a) (Fin b) = (a \<le> b)"
| "fle NInf _ = True"
| "fle _ PInf = True"
| "fle PInf _ = False"
| "fle (Fin _) NInf = False"

text \<open>
  Rounding to the nearest double, ties to the even significand. The unit in the last
  place of \<open>a\<close> is \<open>2 ^ e\<close> for the greatest \<open>e\<close> from -1074 to 971 with
  \<open>2 ^ (e + 52) <= a\<close>, and -1074 below the normal range; \<open>ulp_search\<close> finds it by
  bisection. A result of magnitude \<open>2 ^ 1024\<close> or more is an infinity.
\<close>

definition pow2 :: "int \<Rightarrow> real" where
  "pow2 k = (if 0 \<le> k then 2 ^ nat k else 1 / 2 ^ nat (- k))"

definition round_even :: "real \<Rightarrow> int" where
  "round_even q =
     (let f = \<lfloor>q\<rfloor>; d = q - of_int f
      in if d < 1 / 2 then f else if 1 / 2 < d then f + 1 else if even f then f else f + 1)"

fun ulp_search :: "nat \<Rightarrow> real \<Rightarrow> int \<Rightarrow> int \<Rightarrow> int" where
  "ulp_search 0 a lo hi = lo"
| "ulp_search (Suc n) a lo hi =
     (if hi \<le> lo + 1 then lo
      else if pow2 ((lo + hi) div 2 + 52) \<le> a then ulp_search n a ((lo + hi) div 2) hi
      else ulp_search n a lo ((lo + hi) div 2))"

definition ulp_exp :: "real \<Rightarrow> int" where
  "ulp_exp a = ulp_search 12 a (- 1074) 972"

definition round_double :: "real \<Rightarrow> pyfloat" where
  "round_double x =
     (let e = ulp_exp \<bar>x\<bar>;
          r = of_int (round_even (\<bar>x\<bar> / pow2 e)) * pow2 e
      in if pow2 1024 \<le> r then (if 0 < x then PInf else NInf)
         else Fin (if 0 < x then r else - r))"

text \<open>
  The arithmetic of the handlers: \<open>a - b\<close> and \<open>a * b\<close>, each the exact result
  rounded once. \<open>a + b\<close> is not used by app.py; it serves the example of a SUM below.
\<close>

fun fneg :: "pyfloat \<Rightarrow> pyfloat" where
  "fneg (Fin a) = Fin (- a)"
| "fneg PInf = NInf"
| "fneg NInf = PInf"
| "fneg NaN = NaN"

fun fadd :: "pyfloat \<Rightarrow> pyfloat \<Rightarrow> pyfloat" where
  "fadd NaN _ = NaN"
| "fadd _ NaN = NaN"
| "fadd (Fin a) (Fin b) = round_double (a + b)"
| "fadd PInf NInf = NaN"
| "fadd NInf PInf = NaN"
| "fadd PInf _ = PInf"
| "fadd NInf _ = NInf"
| "fadd (Fin _) b = b"

definition fsub :: "pyfloat \<Rightarrow> pyfloat \<Rightarrow> pyfloat" where
  "fsub a b = fadd a (fneg b)"

text \<open>The sign of a float that is not NaN, for the product with an infinity.\<close>

fun fsign :: "pyfloat \<Rightarrow> int" where
  "fsign (Fin a) = (if a < 0 then - 1 else if a = 0 then 0 else 1)"
| "fsign PInf = 1"
| "fsign NInf = - 1"
| "fsign NaN = 0"

fun fmul :: "pyfloat \<Rightarrow> pyfloat \<Rightarrow> pyfloat" where
  "fmul NaN _ = NaN"
| "fmul _ NaN = NaN"
| "fmul (Fin a) (Fin b) = round_double (a * b)"
| "fmul a b =
     (if fsign a * fsign b = 0 then NaN
      else if fsign a * fsign b > 0 then PInf else NInf)"

fun fabs :: "pyfloat \<Rightarrow> pyfloat" where
  "fabs (Fin a) = Fin \<bar>a\<bar>"
| "fabs PInf = PInf"
| "fabs NInf = PInf"
| "fabs NaN = NaN"

text \<open>Truth value of a float: \<open>bool(x)\<close> is \<open>x != 0.0\<close>, so NaN is true.\<close>

fun truthy :: "pyfloat \<Rightarrow> bool" where
  "truthy (Fin a) = (a \<noteq> 0)"
| "truthy _ = True"

text \<open>
  A float literal of the source or of a form field, such as \<open>0.1\<close>: the double nearest
  to the decimal number written.
\<close>

definition literal :: "real \<Rightarrow> pyfloat" where
  "literal x = round_double x"


subsection \<open>Dates\<close>

text \<open>
  A \<open>datetime.date\<close> has a year, a month and a day. The constructor \<open>date(y, m, d)\<close>
  raises ValueError unless \<open>1 <= y <= 9999\<close>, \<open>1 <= m <= 12\<close> and the day exists in
  that month. Dates compare as the triples (year, month, day).
\<close>

datatype error = ValueError | TypeError | IntegrityError

record date =
  year :: int
  month :: int
  day :: int

definition is_leap :: "int \<Rightarrow> bool" where
  "is_leap y = (y mod 4 = 0 \<and> (y mod 100 \<noteq> 0 \<or> y mod 400 = 0))"

definition days_in_month :: "int \<Rightarrow> int \<Rightarrow> int" where
  "days_in_month y m =
     (if m = 2 then (if is_leap y then 29 else 28)
      else if m = 4 \<or> m = 6 \<or> m = 9 \<or> m = 11 then 30 else 31)"

definition MINYEAR :: int where "MINYEAR = 1"
definition MAXYEAR :: int where "MAXYEAR = 9999"

definition valid_date :: "date \<Rightarrow> bool" where
  "valid_date d =
     (MINYEAR \<le> year d \<and> year d \<le> MAXYEAR \<and> 1 \<le> month d \<and> month d \<le> 12 \<and>
      1 \<le> day d \<and> day d \<le> days_in_month (year d) (month d))"

definition mk_date :: "int \<Rightarrow> int \<Rightarrow> int \<Rightarrow> error + date" where
  "mk_date y m d =
     (let r = \<lparr>year = y, month = m, day = d\<rparr>
      in if valid_date r then Inr r else Inl ValueError)"

definition date_key :: "date \<Rightarrow> int \<times> int \<times> int" where
  "date_key d = (year d, month d, day d)"

definition date_le :: "date \<Rightarrow> date \<Rightarrow> bool" where
  "date_le a b = (date_key a \<le> date_key b)"

definition date_lt :: "date \<Rightarrow> date \<Rightarrow> bool" where
  "date_lt a b = (date_key a < date_key b)"

text \<open>\<open>d.replace(day=1)\<close>: the first day of the month of \<open>d\<close>.\<close>

definition replace_day1 :: "date \<Rightarrow> date" where
  "replace_day1 d = d\<lparr>day := 1\<rparr>"

text \<open>
  \<open>_next_month\<close> of app.py: the first day of the month after the month of \<open>d\<close>.
  It builds the result with the \<open>date\<close> constructor, which raises past year 9999.
\<close>

definition next_month :: "date \<Rightarrow> error + date" where
  "next_month d =
     (if month d = 12 then mk_date (year d + 1) 1 1
      else mk_date (year d) (month d + 1) 1)"

text \<open>\<open>_next_month\<close> applied \<open>n\<close> times, an exception ending the chain.\<close>

fun next_month_times :: "nat \<Rightarrow> date \<Rightarrow> error + date" where
  "next_month_times 0 d = Inr d"
| "next_month_times (Suc n) d =
     (case next_month d of Inl e \<Rightarrow> Inl e | Inr d' \<Rightarrow> next_month_times n d')"

subsection \<open>Budget status\<close>

text \<open>
  The classification at the end of the loop body of \<open>monthly_report\<close>:
  \<open>remaining = budget_amount - spent\<close>, then the \<open>if / elif / else\<close> chain.
\<close>

datatype status = exceeded | near_limit | ok

definition report_status :: "pyfloat \<Rightarrow> pyfloat \<Rightarrow> status" where
  "report_status budget_amount spent =
     (let remaining = fsub budget_amount spent
      in if flt remaining (Fin 0) then exceeded
         else if flt (Fin 0) budget_amount \<and>
                 fle remaining (fmul (literal (1 / 10)) budget_amount)
           then near_limit
         else ok)"


subsection \<open>The library and the database engine\<close>

text \<open>
  The handlers call \<open>float(...)\<close>, \<open>str.strip()\<close>, \<open>datetime.strptime(..., "%Y-%m")\<close>,
  \<open>datetime.strptime(..., "%Y-%m-%d")\<close> and \<open>date.today()\<close> of the Python library, and
  the aggregate \<open>SUM\<close> of the database engine. None of them is code of the application,
  so the model takes them as parameters. A parser gives \<open>None\<close> where the library raises
  ValueError. \<open>sql_sum\<close> is the engine's SUM over the amounts of one or more rows: a
  floating-point sum, whose rounding depends on the engine (SQLite sums with
  compensation since 3.44) and is not fixed here.
\<close>

record runtime =
  float_of :: "string \<Rightarrow> pyfloat option"
  strip :: "string \<Rightarrow> string"
  strptime_ym :: "string \<Rightarrow> date option"
  strptime_ymd :: "string \<Rightarrow> date option"
  today :: date
  sql_sum :: "pyfloat list \<Rightarrow> pyfloat"

text \<open>
  The database of the default configuration is SQLite, which binds a NaN as NULL. Both
  \<open>amount\<close> columns are \<open>nullable=False\<close>: a flush that writes a NaN amount raises
  IntegrityError.
\<close>

definition storable :: "pyfloat \<Rightarrow> bool" where
  "storable a = (a \<noteq> NaN)"

section \<open>The entity store\<close>

text \<open>
  The four tables of models.py, each a list of rows in insertion order. A query without
  \<open>order_by\<close> reads the rows in that order, \<open>first()\<close> takes the first match.
\<close>

record user =
  u_id :: int
  u_name :: string
  u_email :: "string option"

record category =
  c_id :: int
  c_name :: string
  c_user_id :: int

record budget =
  b_id :: int
  b_user_id :: int
  b_category_id :: int
  b_month :: date
  b_amount :: pyfloat

record expense =
  e_id :: int
  e_user_id :: int
  e_category_id :: int
  e_date :: date
  e_amount :: pyfloat
  e_description :: "string option"

record store =
  users :: "user list"
  categories :: "category list"
  budgets :: "budget list"
  expenses :: "expense list"

text \<open>The primary key of a new row: one more than the largest key of the table.\<close>

definition next_id :: "int list \<Rightarrow> int" where
  "next_id ids = foldr max ids 0 + 1"

text \<open>\<open>User.query.get_or_404(user_id)\<close>, with \<open>None\<close> for the 404.\<close>

definition get_user :: "store \<Rightarrow> int \<Rightarrow> user option" where
  "get_user st uid = find (\<lambda>u. u_id u = uid) (users st)"

text \<open>\<open>Category.query.filter_by(user_id=user.id).all()\<close>\<close>

definition categories_of :: "store \<Rightarrow> int \<Rightarrow> category list" where
  "categories_of st uid = filter (\<lambda>c. c_user_id c = uid) (categories st)"

text \<open>\<open>Budget.query.filter_by(user_id=..., category_id=..., month=...).first()\<close>\<close>

definition budget_matches :: "int \<Rightarrow> int \<Rightarrow> date \<Rightarrow> budget \<Rightarrow> bool" where
  "budget_matches uid cid m b = (b_user_id b = uid \<and> b_category_id b = cid \<and> b_month b = m)"

definition first_budget :: "store \<Rightarrow> int \<Rightarrow> int \<Rightarrow> date \<Rightarrow> budget option" where
  "first_budget st uid cid m = find (budget_matches uid cid m) (budgets st)"

text \<open>
  \<open>db.session.query(db.func.sum(Expense.amount)).filter(...).scalar()\<close>: the rows
  of the user, of one category when one is given, dated from \<open>lo\<close> up to but without
  \<open>hi\<close>. SQL's SUM over no row is NULL, which \<open>scalar()\<close> returns as \<open>None\<close>.
\<close>

definition in_month :: "int \<Rightarrow> int option \<Rightarrow> date \<Rightarrow> date \<Rightarrow> expense \<Rightarrow> bool" where
  "in_month uid cat lo hi e =
     (e_user_id e = uid \<and> (case cat of None \<Rightarrow> True | Some cid \<Rightarrow> e_category_id e = cid) \<and>
      date_le lo (e_date e) \<and> date_lt (e_date e) hi)"

definition sum_amount ::
  "runtime \<Rightarrow> store \<Rightarrow> int \<Rightarrow> int option \<Rightarrow> date \<Rightarrow> date \<Rightarrow> pyfloat option" where
  "sum_amount rt st uid cat lo hi =
     (let rows = filter (in_month uid cat lo hi) (expenses st)
      in if rows = [] then None else Some (sql_sum rt (map e_amount rows)))"

text \<open>\<open>x or 0.0\<close>: \<open>x\<close> unless it is \<open>None\<close> or zero.\<close>

definition or_zero :: "pyfloat option \<Rightarrow> pyfloat" where
  "or_zero x = (case x of None \<Rightarrow> Fin 0 | Some v \<Rightarrow> if truthy v then v else Fin 0)"

section \<open>Requests and responses\<close>

datatype severity = Error | Warning | Info | Success

text \<open>
  The flashed messages, one constructor per message text of app.py; a message that
  formats a category name or an amount carries it.
\<close>

datatype message =
    UserDeleted
  | InvalidMonthFormat
  | InvalidBudgetAmount string
  | BudgetsSaved
  | AmountMustBePositive
  | InvalidDate
  | InvalidCategory
  | BudgetExceeded string pyfloat
  | BudgetNearLimit string pyfloat
  | ExpenseRecorded

type_synonym flash = "message \<times> severity"

datatype http_method = GET | POST

datatype route =
    IndexPage
  | ManageBudgetsPage int "date option"
  | CreateExpensePage int
  | ListExpensesPage int

record report_row =
  row_category :: category
  row_budget :: pyfloat
  row_spent :: pyfloat
  row_remaining :: pyfloat
  row_status :: status

text \<open>
  What a handler answers: a 404, a redirect, a rendered template with the values passed
  to it, or the 500 of an exception that no handler catches.
\<close>

datatype response =
    NotFound
  | Redirect route
  | BudgetsTemplate user "category list" date "int \<rightharpoonup> budget"
  | CreateExpenseTemplate user "category list" date
  | ExpensesTemplate user "expense list" "int \<rightharpoonup> category"
  | MonthlyReportTemplate user date pyfloat "report_row list"
  | ServerError error

record outcome =
  db :: store
  flashes :: "flash list"
  response :: response

section \<open>The handlers of app.py\<close>

subsection \<open>\<open>delete_user\<close>\<close>

text \<open>
  A request works in a session: the statements of the handler change the session's
  working copy, and \<open>db.session.commit()\<close> makes the working copy the committed store,
  the store every other request reads. \<open>delete_user\<close> runs three bulk deletes by
  \<open>user_id\<close>, the delete of the user row by its primary key, and one commit.
\<close>

record session =
  committed :: store
  working :: store

definition delete_expenses_of :: "int \<Rightarrow> session \<Rightarrow> session" where
  "delete_expenses_of uid s =
     s\<lparr>working := (working s)\<lparr>expenses := filter (\<lambda>e. e_user_id e \<noteq> uid) (expenses (working s))\<rparr>\<rparr>"

definition delete_budgets_of :: "int \<Rightarrow> session \<Rightarrow> session" where
  "delete_budgets_of uid s =
     s\<lparr>working := (working s)\<lparr>budgets := filter (\<lambda>b. b_user_id b \<noteq> uid) (budgets (working s))\<rparr>\<rparr>"

definition delete_categories_of :: "int \<Rightarrow> session \<Rightarrow> session" where
  "delete_categories_of uid s =
     s\<lparr>working :=
         (working s)\<lparr>categories := filter (\<lambda>c. c_user_id c \<noteq> uid) (categories (working s))\<rparr>\<rparr>"

definition delete_user_row :: "int \<Rightarrow> session \<Rightarrow> session" where
  "delete_user_row uid s =
     s\<lparr>working := (working s)\<lparr>users := filter (\<lambda>u. u_id u \<noteq> uid) (users (working s))\<rparr>\<rparr>"

definition commit :: "session \<Rightarrow> session" where
  "commit s = s\<lparr>committed := working s\<rparr>"

text \<open>The statements of \<open>delete_user\<close> after the lookup of the user, in their order.\<close>

definition delete_user_steps :: "int \<Rightarrow> (session \<Rightarrow> session) list" where
  "delete_user_steps uid =
     [delete_expenses_of uid, delete_budgets_of uid, delete_categories_of uid,
      delete_user_row uid, commit]"

text \<open>The session after each statement of a list, in order.\<close>

fun run_steps :: "(session \<Rightarrow> session) list \<Rightarrow> session \<Rightarrow> session list" where
  "run_steps [] s = []"
| "run_steps (f # fs) s = f s # run_steps fs (f s)"

definition delete_user :: "store \<Rightarrow> int \<Rightarrow> outcome" where
  "delete_user st uid =
     (case get_user st uid of
        None \<Rightarrow> \<lparr>db = st, flashes = [], response = NotFound\<rparr>
      | Some user \<Rightarrow>
          \<lparr>db = committed (last (run_steps (delete_user_steps (u_id user))
                                  \<lparr>committed = st, working = st\<rparr>)),
           flashes = [(UserDeleted, Success)], response = Redirect IndexPage\<rparr>)"

subsection \<open>\<open>manage_budgets\<close>\<close>

record budget_request =
  bq_method :: http_method
  bq_args_month :: "string option"
  bq_form_month :: "string option"
  bq_form_budget :: "int \<Rightarrow> string option"

text \<open>
  The update-or-insert at the end of the loop body, on the working copy:
  \<open>budget.amount = amount\<close> updates the row with the primary key of the first match,
  \<open>db.session.add\<close> appends a row.
\<close>

definition upsert_budget :: "store \<Rightarrow> int \<Rightarrow> int \<Rightarrow> date \<Rightarrow> pyfloat \<Rightarrow> store" where
  "upsert_budget st uid cid m amount =
     (case first_budget st uid cid m of
        Some budget \<Rightarrow>
          st\<lparr>budgets :=
               map (\<lambda>b. if b_id b = b_id budget then b\<lparr>b_amount := amount\<rparr> else b) (budgets st)\<rparr>
      | None \<Rightarrow>
          st\<lparr>budgets := budgets st @
               [\<lparr>b_id = next_id (map b_id (budgets st)), b_user_id = uid, b_category_id = cid,
                 b_month = m, b_amount = amount\<rparr>]\<rparr>)"

text \<open>
  The state of the loop \<open>for category in categories\<close>: the working copy, the messages
  flashed so far, and whether a change not yet flushed holds an amount the store
  refuses. The session flushes before each query and at the commit, so the query of a
  later turn sees the rows of the earlier turns, and it raises IntegrityError when such
  a change is pending.
\<close>

record batch =
  bt_store :: store
  bt_flashes :: "flash list"
  bt_refused :: bool

text \<open>
  One turn of the loop. \<open>Inl\<close> is the exception, with the messages flashed before it;
  no later turn runs.
\<close>

definition budget_item ::
  "runtime \<Rightarrow> int \<Rightarrow> date \<Rightarrow> (int \<Rightarrow> string option) \<Rightarrow> category \<Rightarrow>
   flash list + batch \<Rightarrow> flash list + batch" where
  "budget_item rt uid m form category acc =
     (case acc of
        Inl fl \<Rightarrow> Inl fl
      | Inr bt \<Rightarrow>
          (case form (c_id category) of
             None \<Rightarrow> Inr bt
           | Some raw_value \<Rightarrow>
               if strip rt raw_value = [] then Inr bt
               else
                 (case float_of rt raw_value of
                    None \<Rightarrow>
                      Inr (bt\<lparr>bt_flashes := bt_flashes bt @
                                 [(InvalidBudgetAmount (c_name category), Error)]\<rparr>)
                  | Some amount \<Rightarrow>
                      if flt amount (Fin 0)
                      then Inr (bt\<lparr>bt_flashes := bt_flashes bt @
                                      [(InvalidBudgetAmount (c_name category), Error)]\<rparr>)
                      else if bt_refused bt then Inl (bt_flashes bt)
                      else Inr (bt\<lparr>bt_store :=
                                      upsert_budget (bt_store bt) uid (c_id category) m amount,
                                    bt_refused := \<not> storable amount\<rparr>))))"

definition budget_loop ::
  "runtime \<Rightarrow> int \<Rightarrow> date \<Rightarrow> (int \<Rightarrow> string option) \<Rightarrow> category list \<Rightarrow>
   flash list + batch \<Rightarrow> flash list + batch" where
  "budget_loop rt uid m form cs acc = fold (budget_item rt uid m form) cs acc"

text \<open>
  The month of a page: the \<open>month\<close> query parameter when it is there, not empty and
  parses, else the first day of the current month. \<open>monthly_report\<close> and
  \<open>manage_budgets\<close> both start with these lines.
\<close>

definition selected_month :: "runtime \<Rightarrow> string option \<Rightarrow> date" where
  "selected_month rt month_str =
     (case month_str of
        None \<Rightarrow> replace_day1 (today rt)
      | Some s \<Rightarrow>
          if s = [] then replace_day1 (today rt)
          else (case strptime_ym rt s of
                  None \<Rightarrow> replace_day1 (today rt)
                | Some d \<Rightarrow> d))"

text \<open>
  \<open>{b.category_id: b for b in Budget.query.filter_by(user_id=..., month=...)}\<close>:
  a later row of a category replaces an earlier one.
\<close>

definition existing_budgets :: "store \<Rightarrow> int \<Rightarrow> date \<Rightarrow> (int \<rightharpoonup> budget)" where
  "existing_budgets st uid m =
     fold (\<lambda>b d. d(b_category_id b \<mapsto> b))
       (filter (\<lambda>b. b_user_id b = uid \<and> b_month b = m) (budgets st)) Map.empty"

text \<open>
  An exception in the loop or in the commit is caught nowhere: the answer is the 500,
  the session is rolled back and the committed store stays as it was. \<open>flashes\<close> are
  then the messages flashed before the exception.
\<close>

definition manage_budgets :: "runtime \<Rightarrow> store \<Rightarrow> int \<Rightarrow> budget_request \<Rightarrow> outcome" where
  "manage_budgets rt st uid rq =
     (case get_user st uid of
        None \<Rightarrow> \<lparr>db = st, flashes = [], response = NotFound\<rparr>
      | Some user \<Rightarrow>
          let cs = categories_of st (u_id user);
              sel = selected_month rt (bq_args_month rq)
          in if bq_method rq = POST then
               (case (case bq_form_month rq of None \<Rightarrow> None | Some s \<Rightarrow> strptime_ym rt s) of
                  None \<Rightarrow>
                    \<lparr>db = st, flashes = [(InvalidMonthFormat, Error)],
                     response = Redirect (ManageBudgetsPage (u_id user) None)\<rparr>
                | Some m \<Rightarrow>
                    (case budget_loop rt (u_id user) m (bq_form_budget rq) cs
                            (Inr \<lparr>bt_store = st, bt_flashes = [], bt_refused = False\<rparr>) of
                       Inl fl \<Rightarrow>
                         \<lparr>db = st, flashes = fl, response = ServerError IntegrityError\<rparr>
                     | Inr bt \<Rightarrow>
                         if bt_refused bt
                         then \<lparr>db = st, flashes = bt_flashes bt,
                               response = ServerError IntegrityError\<rparr>
                         else \<lparr>db = bt_store bt,
                               flashes = bt_flashes bt @ [(BudgetsSaved, Success)],
                               response = Redirect (ManageBudgetsPage (u_id user) (Some m))\<rparr>))
             else
               \<lparr>db = st, flashes = [],
                response = BudgetsTemplate user cs sel (existing_budgets st (u_id user) sel)\<rparr>)"

text \<open>A sequence of requests to \<open>manage_budgets\<close>, each on the store the last one left.\<close>

definition run_budget_requests ::
  "runtime \<Rightarrow> store \<Rightarrow> (int \<times> budget_request) list \<Rightarrow> store" where
  "run_budget_requests rt st rqs = fold (\<lambda>(uid, rq) s. db (manage_budgets rt s uid rq)) rqs st"

subsection \<open>\<open>create_expense\<close>\<close>

text \<open>
  The form of the expense page. \<open>eq_category_id\<close> is the primary key the submitted
  \<open>category_id\<close> text denotes in the query \<open>filter_by(id=category_id, ...)\<close>, and
  \<open>None\<close> when the field is missing or denotes no key.
\<close>

record expense_request =
  eq_method :: http_method
  eq_category_id :: "int option"
  eq_amount :: "string option"
  eq_date :: "string option"
  eq_description :: "string option"

text \<open>
  The alert after an expense was saved and a budget was found: a warning when the
  budget is exceeded, an information when a tenth or less of it remains, else nothing.
\<close>

definition budget_alert :: "string \<Rightarrow> pyfloat \<Rightarrow> pyfloat \<Rightarrow> flash list" where
  "budget_alert name budget_amount total_spent =
     (let remaining = fsub budget_amount total_spent
      in if flt remaining (Fin 0) then [(BudgetExceeded name (fabs remaining), Warning)]
         else if flt (Fin 0) budget_amount \<and>
                 fle remaining (fmul (literal (1 / 10)) budget_amount)
           then [(BudgetNearLimit name remaining, Info)]
         else [])"

text \<open>The validation failures: a flashed error and a redirect back to the form.\<close>

definition reject :: "store \<Rightarrow> int \<Rightarrow> message \<Rightarrow> outcome" where
  "reject st uid msg =
     \<lparr>db = st, flashes = [(msg, Error)], response = Redirect (CreateExpensePage uid)\<rparr>"

text \<open>
  What follows \<open>db.session.commit()\<close>: the expense is in the store \<open>st\<close> by then.
  \<open>_next_month\<close> is called only when a budget was found; an exception it raises is
  caught nowhere.
\<close>

definition check_budget :: "runtime \<Rightarrow> store \<Rightarrow> user \<Rightarrow> category \<Rightarrow> date \<Rightarrow> outcome" where
  "check_budget rt st user category expense_date =
     (let month_start = replace_day1 expense_date
      in case first_budget st (u_id user) (c_id category) month_start of
           None \<Rightarrow>
             \<lparr>db = st, flashes = [(ExpenseRecorded, Success)],
              response = Redirect (ListExpensesPage (u_id user))\<rparr>
         | Some budget \<Rightarrow>
             (case next_month month_start of
                Inl e \<Rightarrow> \<lparr>db = st, flashes = [], response = ServerError e\<rparr>
              | Inr month_end \<Rightarrow>
                  let total_spent =
                        or_zero (sum_amount rt st (u_id user) (Some (c_id category))
                                   month_start month_end)
                  in \<lparr>db = st,
                      flashes = budget_alert (c_name category) (b_amount budget) total_spent
                                @ [(ExpenseRecorded, Success)],
                      response = Redirect (ListExpensesPage (u_id user))\<rparr>))"

text \<open>
  The commit of the new expense raises IntegrityError when the store refuses its
  amount: the answer is the 500 and the store stays as it was.
\<close>

definition create_expense :: "runtime \<Rightarrow> store \<Rightarrow> int \<Rightarrow> expense_request \<Rightarrow> outcome" where
  "create_expense rt st uid rq =
     (case get_user st uid of
        None \<Rightarrow> \<lparr>db = st, flashes = [], response = NotFound\<rparr>
      | Some user \<Rightarrow>
          if eq_method rq = POST then
            let amount_raw = strip rt (case eq_amount rq of None \<Rightarrow> [] | Some s \<Rightarrow> s);
                date_str = (case eq_date rq of None \<Rightarrow> [] | Some s \<Rightarrow> s);
                description = strip rt (case eq_description rq of None \<Rightarrow> [] | Some s \<Rightarrow> s)
            in case float_of rt amount_raw of
                 None \<Rightarrow> reject st (u_id user) AmountMustBePositive
               | Some amount \<Rightarrow>
                   if fle amount (Fin 0) then reject st (u_id user) AmountMustBePositive
                   else
                     (case strptime_ymd rt date_str of
                        None \<Rightarrow> reject st (u_id user) InvalidDate
                      | Some expense_date \<Rightarrow>
                          (case find (\<lambda>c. Some (c_id c) = eq_category_id rq \<and>
                                           c_user_id c = u_id user) (categories st) of
                             None \<Rightarrow> reject st (u_id user) InvalidCategory
                           | Some category \<Rightarrow>
                               let expense =
                                     \<lparr>e_id = next_id (map e_id (expenses st)),
                                      e_user_id = u_id user, e_category_id = c_id category,
                                      e_date = expense_date, e_amount = amount,
                                      e_description =
                                        (if description = [] then None else Some description)\<rparr>
                               in if storable amount
                                  then check_budget rt (st\<lparr>expenses := expenses st @ [expense]\<rparr>)
                                         user category expense_date
                                  else \<lparr>db = st, flashes = [],
                                        response = ServerError IntegrityError\<rparr>))
          else
            \<lparr>db = st, flashes = [],
             response = CreateExpenseTemplate user (categories_of st (u_id user)) (today rt)\<rparr>)"

subsection \<open>\<open>list_expenses\<close>\<close>

text \<open>
  \<open>order_by(Expense.date.desc()).limit(50)\<close>. The order among expenses of one date is
  the store's choice; here it is the reverse of a stable ascending sort.
\<close>

definition recent_expenses :: "store \<Rightarrow> int \<Rightarrow> expense list" where
  "recent_expenses st uid =
     take 50 (rev (sort_key (\<lambda>e. date_key (e_date e))
                     (filter (\<lambda>e. e_user_id e = uid) (expenses st))))"

definition list_expenses :: "store \<Rightarrow> int \<Rightarrow> outcome" where
  "list_expenses st uid =
     (case get_user st uid of
        None \<Rightarrow> \<lparr>db = st, flashes = [], response = NotFound\<rparr>
      | Some user \<Rightarrow>
          \<lparr>db = st, flashes = [],
           response = ExpensesTemplate user (recent_expenses st (u_id user))
             (fold (\<lambda>c d. d(c_id c \<mapsto> c)) (categories_of st (u_id user)) Map.empty)\<rparr>)"

subsection \<open>\<open>monthly_report\<close>\<close>

text \<open>One turn of the loop over the categories: the dictionary appended to \<open>per_category\<close>.\<close>

definition category_row ::
  "runtime \<Rightarrow> store \<Rightarrow> user \<Rightarrow> date \<Rightarrow> date \<Rightarrow> category \<Rightarrow> report_row" where
  "category_row rt st user month_start month_end category =
     (let spent = or_zero (sum_amount rt st (u_id user) (Some (c_id category))
                             month_start month_end);
          budget_amount =
            (case first_budget st (u_id user) (c_id category) month_start of
               Some budget \<Rightarrow> b_amount budget
             | None \<Rightarrow> Fin 0)
      in \<lparr>row_category = category, row_budget = budget_amount, row_spent = spent,
          row_remaining = fsub budget_amount spent,
          row_status = report_status budget_amount spent\<rparr>)"

definition monthly_report :: "runtime \<Rightarrow> store \<Rightarrow> int \<Rightarrow> string option \<Rightarrow> outcome" where
  "monthly_report rt st uid month_str =
     (case get_user st uid of
        None \<Rightarrow> \<lparr>db = st, flashes = [], response = NotFound\<rparr>
      | Some user \<Rightarrow>
          let month_start = selected_month rt month_str
          in case next_month month_start of
               Inl e \<Rightarrow> \<lparr>db = st, flashes = [], response = ServerError e\<rparr>
             | Inr month_end \<Rightarrow>
                 let total_spent =
                       or_zero (sum_amount rt st (u_id user) None month_start month_end)
                 in \<lparr>db = st, flashes = [],
                     response = MonthlyReportTemplate user month_start total_spent
                       (map (category_row rt st user month_start month_end)
                          (categories_of st (u_id user)))\<rparr>)"

section \<open>Invariants and examples\<close>

text \<open>
  The store keeps primary keys unique, and the update-or-insert keeps at most one budget
  for a user, a category and a month.
\<close>

definition budget_key :: "budget \<Rightarrow> int \<times> int \<times> date" where
  "budget_key b = (b_user_id b, b_category_id b, b_month b)"

definition budget_inv :: "store \<Rightarrow> bool" where
  "budget_inv st = (distinct (map b_id (budgets st)) \<and> distinct (map budget_key (budgets st)))"

text \<open>The first budget of a user, a category and a month holds the amount \<open>a\<close>.\<close>

definition holds_amount :: "store \<Rightarrow> int \<Rightarrow> int \<Rightarrow> date \<Rightarrow> pyfloat \<Rightarrow> bool" where
  "holds_amount st uid cid m a =
     (case first_budget st uid cid m of None \<Rightarrow> False | Some b \<Rightarrow> b_amount b = a)"

text \<open>
  MonthlySpend in the words of the specification, with the sum read as the engine's
  SUM: the sum of the amounts of the expenses of the user, of the one category when one
  is given, dated from \<open>lo\<close> up to but without \<open>hi\<close>, and 0.0 when there is none.
\<close>

definition monthly_spend_spec ::
  "runtime \<Rightarrow> store \<Rightarrow> int \<Rightarrow> int option \<Rightarrow> date \<Rightarrow> date \<Rightarrow> pyfloat" where
  "monthly_spend_spec rt st uid cat lo hi =
     (let amounts = [e_amount e. e \<leftarrow> expenses st, e_user_id e = uid,
                     cat = None \<or> cat = Some (e_category_id e),
                     date_le lo (e_date e), date_lt (e_date e) hi]
      in if amounts = [] then Fin 0 else sql_sum rt amounts)"

text \<open>A listing with the latest date first.\<close>

definition newest_first :: "expense list \<Rightarrow> bool" where
  "newest_first xs = sorted_wrt (\<lambda>a b. date_le (e_date b) (e_date a)) xs"

text \<open>
  A runtime and a store on which the theorems below are run. Its parsers know a few
  texts, it strips the ASCII space, and its SUM adds doubles from left to right.
\<close>

definition naive_sum :: "pyfloat list \<Rightarrow> pyfloat" where
  "naive_sum xs = foldl fadd (Fin 0) xs"

definition demo_runtime :: runtime where
  "demo_runtime =
     \<lparr>float_of = map_of [(''100'', Fin 100), (''250'', Fin 250), (''0.01'', literal (1 / 100)),
                          (''0'', Fin 0), (''-5'', Fin (- 5)), (''nan'', NaN)],
      strip = (\<lambda>s. rev (dropWhile (\<lambda>c. c = CHR '' '') (rev (dropWhile (\<lambda>c. c = CHR '' '') s)))),
      strptime_ym = map_of [(''2024-03'', \<lparr>year = 2024, month = 3, day = 1\<rparr>),
                            (''9999-12'', \<lparr>year = 9999, month = 12, day = 1\<rparr>)],
      strptime_ymd = map_of [(''2024-03-15'', \<lparr>year = 2024, month = 3, day = 15\<rparr>)],
      today = \<lparr>year = 2024, month = 3, day = 20\<rparr>,
      sql_sum = naive_sum\<rparr>"

definition ann :: user where
  "ann = \<lparr>u_id = 1, u_name = ''Ann'', u_email = None\<rparr>"

definition bob :: user where
  "bob = \<lparr>u_id = 2, u_name = ''Bob'', u_email = None\<rparr>"

definition food :: category where
  "food = \<lparr>c_id = 1, c_name = ''Food'', c_user_id = 1\<rparr>"

definition rent :: category where
  "rent = \<lparr>c_id = 2, c_name = ''Rent'', c_user_id = 1\<rparr>"

definition bob_food :: category where
  "bob_food = \<lparr>c_id = 3, c_name = ''Food'', c_user_id = 2\<rparr>"

definition march :: date where
  "march = \<lparr>year = 2024, month = 3, day = 1\<rparr>"

definition demo_store :: store where
  "demo_store =
     \<lparr>users = [ann, bob],
      categories = [food, rent, bob_food],
      budgets =
        [\<lparr>b_id = 1, b_user_id = 1, b_category_id = 1, b_month = march, b_amount = Fin 100\<rparr>,
         \<lparr>b_id = 2, b_user_id = 2, b_category_id = 3, b_month = march, b_amount = Fin 50\<rparr>],
      expenses =
        [\<lparr>e_id = 1, e_user_id = 1, e_category_id = 1,
          e_date = \<lparr>year = 2024, month = 3, day = 5\<rparr>, e_amount = Fin 60, e_description = None\<rparr>,
         \<lparr>e_id = 2, e_user_id = 1, e_category_id = 1,
          e_date = \<lparr>year = 2024, month = 3, day = 10\<rparr>, e_amount = Fin 35, e_description = None\<rparr>,
         \<lparr>e_id = 3, e_user_id = 1, e_category_id = 2,
          e_date = \<lparr>year = 2024, month = 2, day = 28\<rparr>, e_amount = Fin 800, e_description = None\<rparr>,
         \<lparr>e_id = 4, e_user_id = 2, e_category_id = 3,
          e_date = \<lparr>year = 2024, month = 3, day = 2\<rparr>, e_amount = Fin 20, e_description = None\<rparr>]\<rparr>"

text \<open>A store with 51 expenses of one user, one per year from 2001 to 2051.\<close>

definition busy_store :: store where
  "busy_store =
     \<lparr>users = [ann], categories = [food], budgets = [],
      expenses = map (\<lambda>i. \<lparr>e_id = i, e_user_id = 1, e_category_id = 1,
                             e_date = \<lparr>year = 2000 + i, month = 1, day = 1\<rparr>,
                             e_amount = Fin 1, e_description = None\<rparr>) [1..51]\<rparr>"

text \<open>
  Submissions of the budget form for March: a negative amount for Food and 250 for
  Rent; then 100 for Rent; and 250 for Food with \<open>nan\<close> for Rent.
\<close>

definition first_submission :: budget_request where
  "first_submission =
     \<lparr>bq_method = POST, bq_args_month = None, bq_form_month = Some ''2024-03'',
      bq_form_budget = map_of [(1, ''-5''), (2, ''250'')]\<rparr>"

definition second_submission :: budget_request where
  "second_submission =
     \<lparr>bq_method = POST, bq_args_month = None, bq_form_month = Some ''2024-03'',
      bq_form_budget = map_of [(2, ''100'')]\<rparr>"

definition nan_submission :: budget_request where
  "nan_submission =
     \<lparr>bq_method = POST, bq_args_month = None, bq_form_month = Some ''2024-03'',
      bq_form_budget = map_of [(1, ''250''), (2, ''nan'')]\<rparr>"

section \<open>Properties\<close>

subsection \<open>The next month\<close>

lemma next_month_step:
  "valid_date d \<Longrightarrow> month d = 12 \<longrightarrow> year d \<le> 9998 \<Longrightarrow>
   next_month d =
     Inr (if month d = 12 then \<lparr>year = year d + 1, month = 1, day = 1\<rparr>
          else \<lparr>year = year d, month = month d + 1, day = 1\<rparr>)"
  by (auto simp: next_month_def mk_date_def valid_date_def days_in_month_def
        MINYEAR_def MAXYEAR_def Let_def)

lemma valid_first_day:
  "1 \<le> y \<Longrightarrow> y \<le> 9999 \<Longrightarrow> 1 \<le> m \<Longrightarrow> m \<le> 12 \<Longrightarrow>
   valid_date \<lparr>year = y, month = m, day = 1\<rparr>"
  by (auto simp: valid_date_def days_in_month_def MINYEAR_def MAXYEAR_def)

text \<open>
  Claim C3, as the code has it. The \<open>date\<close> constructor raises ValueError for the year
  10000, so \<open>_next_month\<close> of December 9999 is an exception and not a date.
\<close>

theorem next_month_december_9999:
  "valid_date \<lparr>year = 9999, month = 12, day = 1\<rparr> \<and>
   next_month \<lparr>year = 9999, month = 12, day = 1\<rparr> = Inl ValueError"
  by (simp add: next_month_def mk_date_def valid_date_def days_in_month_def
        MINYEAR_def MAXYEAR_def Let_def)

text \<open>
  Claim C3, amended. For every month \<open>m\<close> before the year 9999, given as the first day
  of the month, twelve applications of \<open>_next_month\<close> give the same month one year
  later, and \<open>_next_month\<close> of December of a year \<open>Y\<close> is January 1 of \<open>Y + 1\<close>.
\<close>

theorem next_month_twelve_times:
  assumes "valid_date m" and "day m = 1" and "year m \<le> 9998"
  shows "next_month_times 12 m = Inr (m\<lparr>year := year m + 1\<rparr>) \<and>
         (month m = 12 \<longrightarrow> next_month m = Inr \<lparr>year = year m + 1, month = 1, day = 1\<rparr>)"
proof -
  have y: "1 \<le> year m" and "1 \<le> month m" and "month m \<le> 12"
    using assms by (auto simp: valid_date_def MINYEAR_def)
  then have "month m \<in> {1, 2, 3, 4, 5, 6, 7, 8, 9, 10, 11, 12}"
    by simp arith
  then have "next_month_times 12 m = Inr (m\<lparr>year := year m + 1\<rparr>)"
    using assms y
    by (elim insertE emptyE) (simp_all add: eval_nat_numeral next_month_step valid_first_day)
  moreover have "month m = 12 \<longrightarrow>
      next_month m = Inr \<lparr>year = year m + 1, month = 1, day = 1\<rparr>"
    using assms by (simp add: next_month_step)
  ultimately show ?thesis by simp
qed

theorem next_month_twelve_times_witness:
  "valid_date \<lparr>year = 2024, month = 12, day = 1\<rparr> \<and>
   next_month_times 12 \<lparr>year = 2024, month = 12, day = 1\<rparr>
     = Inr \<lparr>year = 2025, month = 12, day = 1\<rparr> \<and>
   next_month \<lparr>year = 2024, month = 12, day = 1\<rparr> = Inr \<lparr>year = 2025, month = 1, day = 1\<rparr>"
proof -
  have v: "valid_date \<lparr>year = 2024, month = 12, day = 1\<rparr>"
    by (simp add: valid_first_day)
  show ?thesis
    using v next_month_twelve_times [OF v, simplified] by simp
qed

subsection \<open>Evaluation\<close>

lemmas demo_defs = demo_runtime_def demo_store_def ann_def bob_def food_def rent_def bob_food_def
  march_def

lemmas eval_defs = get_user_def selected_month_def next_month_def mk_date_def valid_date_def
  days_in_month_def is_leap_def MINYEAR_def MAXYEAR_def or_zero_def sum_amount_def in_month_def
  date_le_def date_lt_def date_key_def categories_of_def first_budget_def budget_matches_def
  replace_day1_def Let_def

lemmas round_defs = round_double_def ulp_exp_def pow2_def round_even_def literal_def Let_def
  eval_nat_numeral

lemma get_user_id: "get_user st uid = Some u \<Longrightarrow> u_id u = uid"
  by (auto simp: get_user_def find_Some_iff)

text \<open>Doubles that the examples meet.\<close>

lemma tenth: "literal (1 / 10) = Fin (3602879701896397 / 36028797018963968)"
  by (simp add: round_defs)

lemma round_small:
  "round_double 0 = Fin 0" "round_double 5 = Fin 5" "round_double 10 = Fin 10"
  "round_double 50 = Fin 50" "round_double 60 = Fin 60" "round_double 95 = Fin 95"
  "round_double 100 = Fin 100" "round_double 195 = Fin 195" "round_double (- 20) = Fin (- 20)"
  "round_double (- 95) = Fin (- 95)"
  by (simp_all add: round_defs)

lemma status_examples:
  "report_status (Fin 100) (Fin 120) = exceeded"
  "report_status (Fin 100) (Fin 95) = near_limit"
  "report_status (Fin 100) (Fin 50) = ok"
  "report_status (Fin 0) (Fin 0) = ok"
  by (simp_all add: report_status_def fsub_def tenth round_small) (simp_all add: round_defs)

lemma demo_total:
  "or_zero (sum_amount demo_runtime demo_store 1 None march \<lparr>year = 2024, month = 4, day = 1\<rparr>)
   = Fin 95"
  by (simp add: demo_defs eval_defs naive_sum_def round_small)

lemma demo_rows:
  "map (category_row demo_runtime demo_store ann march \<lparr>year = 2024, month = 4, day = 1\<rparr>)
     (categories_of demo_store 1) =
       [\<lparr>row_category = food, row_budget = Fin 100, row_spent = Fin 95,
         row_remaining = Fin 5, row_status = near_limit\<rparr>,
        \<lparr>row_category = rent, row_budget = Fin 0, row_spent = Fin 0,
         row_remaining = Fin 0, row_status = ok\<rparr>]"
proof -
  have "categories_of demo_store 1 = [food, rent]"
    by (simp add: demo_defs eval_defs)
  moreover have "or_zero (sum_amount demo_runtime demo_store 1 (Some (c_id food)) march
                   \<lparr>year = 2024, month = 4, day = 1\<rparr>) = Fin 95"
    by (simp add: demo_defs eval_defs naive_sum_def round_small)
  moreover have "or_zero (sum_amount demo_runtime demo_store 1 (Some (c_id rent)) march
                   \<lparr>year = 2024, month = 4, day = 1\<rparr>) = Fin 0"
    by (simp add: demo_defs eval_defs)
  moreover have "first_budget demo_store 1 (c_id food) march =
      Some \<lparr>b_id = 1, b_user_id = 1, b_category_id = 1, b_month = march, b_amount = Fin 100\<rparr>"
    "first_budget demo_store 1 (c_id rent) march = None"
    by (simp_all add: demo_defs eval_defs)
  moreover have "u_id ann = 1" by (simp add: ann_def)
  ultimately show ?thesis
    by (simp add: category_row_def status_examples fsub_def round_small Let_def)
qed

subsection \<open>Listing expenses\<close>

lemma newest_first_rev_sort:
  "newest_first (rev (sort_key (\<lambda>e. date_key (e_date e)) xs))"
proof -
  have "sorted (map (\<lambda>e. date_key (e_date e)) (sort_key (\<lambda>e. date_key (e_date e)) xs))"
    by (rule sorted_sort_key)
  then have "sorted_wrt (\<lambda>a b. date_key (e_date a) \<le> date_key (e_date b))
               (sort_key (\<lambda>e. date_key (e_date e)) xs)"
    by (simp add: sorted_map)
  then show ?thesis
    by (simp add: newest_first_def sorted_wrt_rev date_le_def)
qed

text \<open>
  Claim C9. The listing holds at most 50 expenses, all of the user, the latest date
  first. It is the first 50 of the user's expenses put in descending order of date:
  every expense left out is dated no later than every expense listed.
\<close>

theorem recent_expenses_listing:
  "length (recent_expenses st uid) \<le> 50 \<and>
   newest_first (recent_expenses st uid) \<and>
   set (recent_expenses st uid) \<subseteq> {e. e \<in> set (expenses st) \<and> e_user_id e = uid} \<and>
   (\<exists>ys. mset ys = mset (filter (\<lambda>e. e_user_id e = uid) (expenses st)) \<and>
         newest_first ys \<and>
         recent_expenses st uid = take 50 ys \<and>
         (\<forall>a\<in>set (take 50 ys). \<forall>b\<in>set (drop 50 ys). date_le (e_date b) (e_date a))) \<and>
   (get_user st uid = Some u \<longrightarrow>
      list_expenses st uid =
         \<lparr>db = st, flashes = [],
          response = ExpensesTemplate u (recent_expenses st uid)
            (fold (\<lambda>c d. d(c_id c \<mapsto> c)) (categories_of st uid) Map.empty)\<rparr>)"
proof -
  let ?xs = "filter (\<lambda>e. e_user_id e = uid) (expenses st)"
  let ?ys = "rev (sort_key (\<lambda>e. date_key (e_date e)) ?xs)"
  have r: "recent_expenses st uid = take 50 ?ys"
    by (simp add: recent_expenses_def)
  have s: "newest_first ?ys" by (rule newest_first_rev_sort)
  have m: "mset ?ys = mset ?xs" by simp
  have 1: "length (recent_expenses st uid) \<le> 50" by (simp add: r)
  have 2: "newest_first (recent_expenses st uid)"
    using s unfolding r newest_first_def by (rule sorted_wrt_take)
  have "set (take 50 ?ys) \<subseteq> set ?ys" by (rule set_take_subset)
  then have 3: "set (recent_expenses st uid) \<subseteq> {e. e \<in> set (expenses st) \<and> e_user_id e = uid}"
    unfolding r by auto
  have "sorted_wrt (\<lambda>a b. date_le (e_date b) (e_date a)) (take 50 ?ys @ drop 50 ?ys)"
    using s by (simp add: newest_first_def)
  then have 4: "\<forall>a\<in>set (take 50 ?ys). \<forall>b\<in>set (drop 50 ?ys). date_le (e_date b) (e_date a)"
    unfolding sorted_wrt_append by blast
  have 5: "get_user st uid = Some u \<longrightarrow>
      list_expenses st uid =
         \<lparr>db = st, flashes = [],
          response = ExpensesTemplate u (recent_expenses st uid)
            (fold (\<lambda>c d. d(c_id c \<mapsto> c)) (categories_of st uid) Map.empty)\<rparr>"
  proof
    assume g: "get_user st uid = Some u"
    then have "u_id u = uid" by (rule get_user_id)
    with g show "list_expenses st uid =
         \<lparr>db = st, flashes = [],
          response = ExpensesTemplate u (recent_expenses st uid)
            (fold (\<lambda>c d. d(c_id c \<mapsto> c)) (categories_of st uid) Map.empty)\<rparr>"
      by (simp add: list_expenses_def)
  qed
  from m s r 4 have "\<exists>ys. mset ys = mset ?xs \<and> newest_first ys \<and>
         recent_expenses st uid = take 50 ys \<and>
         (\<forall>a\<in>set (take 50 ys). \<forall>b\<in>set (drop 50 ys). date_le (e_date b) (e_date a))"
    by blast
  with 1 2 3 5 show ?thesis by blast
qed


theorem recent_expenses_listing_witness:
  "get_user demo_store 1 = Some ann \<and>
   map e_id (recent_expenses demo_store 1) = [2, 1, 3] \<and>
   list_expenses demo_store 1 =
     \<lparr>db = demo_store, flashes = [],
      response = ExpensesTemplate ann (recent_expenses demo_store 1)
        (fold (\<lambda>c d. d(c_id c \<mapsto> c)) (categories_of demo_store 1) Map.empty)\<rparr>"
proof -
  have u: "get_user demo_store 1 = Some ann"
    by (simp add: demo_defs eval_defs)
  have l: "map e_id (recent_expenses demo_store 1) = [2, 1, 3]"
    by (simp add: recent_expenses_def demo_defs date_key_def)
  from recent_expenses_listing [of demo_store 1 ann] u
  have "list_expenses demo_store 1 =
     \<lparr>db = demo_store, flashes = [],
      response = ExpensesTemplate ann (recent_expenses demo_store 1)
        (fold (\<lambda>c d. d(c_id c \<mapsto> c)) (categories_of demo_store 1) Map.empty)\<rparr>"
    by blast
  with u l show ?thesis by blast
qed

text \<open>With 51 expenses the oldest one is left out.\<close>

lemma recent_expenses_truncates:
  "map e_id (recent_expenses busy_store 1) = rev [2..51]"
  by (simp add: recent_expenses_def busy_store_def date_key_def upto.simps)

subsection \<open>The month parameter\<close>

text \<open>
  Claim C10. For a user that exists and a \<open>month\<close> parameter that does not parse, the
  monthly report and the budget page (GET) flash nothing and answer with their page for
  the first day of the current month: the report is the one of a request without the
  parameter.
\<close>

theorem month_fallback:
  assumes "get_user st uid = Some u" and "strptime_ym rt s = None"
  shows "monthly_report rt st uid (Some s) = monthly_report rt st uid None \<and>
         (next_month (replace_day1 (today rt)) = Inr hi \<longrightarrow>
            monthly_report rt st uid (Some s) =
              \<lparr>db = st, flashes = [],
               response = MonthlyReportTemplate u (replace_day1 (today rt))
                 (or_zero (sum_amount rt st uid None (replace_day1 (today rt)) hi))
                 (map (category_row rt st u (replace_day1 (today rt)) hi) (categories_of st uid))\<rparr>) \<and>
         manage_budgets rt st uid
             \<lparr>bq_method = GET, bq_args_month = Some s, bq_form_month = fm, bq_form_budget = fb\<rparr> =
           \<lparr>db = st, flashes = [],
            response = BudgetsTemplate u (categories_of st uid) (replace_day1 (today rt))
              (existing_budgets st uid (replace_day1 (today rt)))\<rparr>"
proof -
  have uid: "u_id u = uid" using assms(1) by (rule get_user_id)
  have sel: "selected_month rt (Some s) = replace_day1 (today rt)"
    using assms(2) by (simp add: selected_month_def)
  have sel0: "selected_month rt None = replace_day1 (today rt)"
    by (simp add: selected_month_def)
  show ?thesis
    using assms(1) uid by (simp add: monthly_report_def manage_budgets_def sel sel0 Let_def)
qed

theorem month_fallback_witness:
  "strptime_ym demo_runtime ''2024-13'' = None \<and>
   response (monthly_report demo_runtime demo_store 1 (Some ''2024-13'')) =
     MonthlyReportTemplate ann march (Fin 95)
       [\<lparr>row_category = food, row_budget = Fin 100, row_spent = Fin 95,
         row_remaining = Fin 5, row_status = near_limit\<rparr>,
        \<lparr>row_category = rent, row_budget = Fin 0, row_spent = Fin 0,
         row_remaining = Fin 0, row_status = ok\<rparr>] \<and>
   flashes (monthly_report demo_runtime demo_store 1 (Some ''2024-13'')) = [] \<and>
   manage_budgets demo_runtime demo_store 1
       \<lparr>bq_method = GET, bq_args_month = Some ''2024-13'', bq_form_month = None,
        bq_form_budget = Map.empty\<rparr> =
     \<lparr>db = demo_store, flashes = [],
      response = BudgetsTemplate ann [food, rent] march (existing_budgets demo_store 1 march)\<rparr>"
proof -
  let ?apr = "\<lparr>year = 2024, month = 4, day = 1\<rparr>"
  have u: "get_user demo_store 1 = Some ann"
    by (simp add: demo_defs eval_defs)
  have p: "strptime_ym demo_runtime ''2024-13'' = None"
    by (simp add: demo_defs)
  have t: "replace_day1 (today demo_runtime) = march"
    by (simp add: demo_defs replace_day1_def)
  have n: "next_month (replace_day1 (today demo_runtime)) = Inr ?apr"
    unfolding t by (simp add: demo_defs eval_defs)
  note fb = month_fallback [OF u p, of ?apr None Map.empty, unfolded t]
  have total: "or_zero (sum_amount demo_runtime demo_store 1 None march ?apr) = Fin 95"
    by (rule demo_total)
  have rows: "map (category_row demo_runtime demo_store ann march ?apr) (categories_of demo_store 1) =
       [\<lparr>row_category = food, row_budget = Fin 100, row_spent = Fin 95,
         row_remaining = Fin 5, row_status = near_limit\<rparr>,
        \<lparr>row_category = rent, row_budget = Fin 0, row_spent = Fin 0,
         row_remaining = Fin 0, row_status = ok\<rparr>]"
    by (rule demo_rows)
  have cs: "categories_of demo_store 1 = [food, rent]"
    by (simp add: demo_defs eval_defs)
  have r: "monthly_report demo_runtime demo_store 1 (Some ''2024-13'') =
      \<lparr>db = demo_store, flashes = [],
       response = MonthlyReportTemplate ann march (Fin 95)
       [\<lparr>row_category = food, row_budget = Fin 100, row_spent = Fin 95,
         row_remaining = Fin 5, row_status = near_limit\<rparr>,
        \<lparr>row_category = rent, row_budget = Fin 0, row_spent = Fin 0,
         row_remaining = Fin 0, row_status = ok\<rparr>]\<rparr>"
    using fb [THEN conjunct2, THEN conjunct1, rule_format, OF n [unfolded t]]
    by (simp only: total rows)
  have b: "manage_budgets demo_runtime demo_store 1
       \<lparr>bq_method = GET, bq_args_month = Some ''2024-13'', bq_form_month = None,
        bq_form_budget = Map.empty\<rparr> =
     \<lparr>db = demo_store, flashes = [],
      response = BudgetsTemplate ann [food, rent] march (existing_budgets demo_store 1 march)\<rparr>"
    using fb [THEN conjunct2, THEN conjunct2] by (simp only: cs)
  show ?thesis using p b by (simp add: r)
qed

subsection \<open>Rounding\<close>








lemma round_even_ge: "of_int \<lfloor>q\<rfloor> \<le> (of_int (round_even q) :: real)"
  by (simp add: round_even_def Let_def)









lemma budget_alert_status:
  "budget_alert name b s =
     (case report_status b s of
        exceeded \<Rightarrow> [(BudgetExceeded name (fabs (fsub b s)), Warning)]
      | near_limit \<Rightarrow> [(BudgetNearLimit name (fsub b s), Info)]
      | ok \<Rightarrow> [])"
  by (simp add: report_status_def budget_alert_def Let_def)

subsection \<open>Budget status\<close>



subsection \<open>Monthly spend\<close>

lemma or_zero_some: "or_zero (Some v) = v"
  by (cases v) (simp_all add: or_zero_def)

lemma or_zero_sum:
  "or_zero (sum_amount rt st uid cat lo hi) =
   (if filter (in_month uid cat lo hi) (expenses st) = [] then Fin 0
    else sql_sum rt (map e_amount (filter (in_month uid cat lo hi) (expenses st))))"
  by (simp add: sum_amount_def Let_def or_zero_some) (simp add: or_zero_def)

lemma spec_rows:
  "[e_amount e. e \<leftarrow> xs, e_user_id e = uid, cat = None \<or> cat = Some (e_category_id e),
      date_le lo (e_date e), date_lt (e_date e) hi]
   = map e_amount (filter (in_month uid cat lo hi) xs)"
  by (induction xs) (auto simp: in_month_def split: option.splits)

lemma or_zero_spec:
  "or_zero (sum_amount rt st uid cat lo hi) = monthly_spend_spec rt st uid cat lo hi"
  by (simp add: or_zero_sum monthly_spend_spec_def spec_rows)

text \<open>
  Claim C2, amended. For every user, optional category and month \<open>m\<close> whose next month
  exists (every month but December 9999), the spend the handlers compute is the
  engine's SUM, a floating-point sum, over the amounts of exactly the user's expenses, of
  that category when one is given, dated in \<open>[m, nextMonth(m))\<close>: this is the total and
  the per-category spend of the monthly report, and the value of the expression
  \<open>sum(...).scalar() or 0.0\<close> wherever it stands. With no matching expense it is
  exactly 0.0.
\<close>

theorem monthly_spend_sum:
  assumes "get_user st uid = Some u" and "selected_month rt ms = m" and "next_month m = Inr hi"
  shows "response (monthly_report rt st uid ms) =
           MonthlyReportTemplate u m (monthly_spend_spec rt st uid None m hi)
             (map (category_row rt st u m hi) (categories_of st uid)) \<and>
         row_spent (category_row rt st u m hi c) =
           monthly_spend_spec rt st uid (Some (c_id c)) m hi \<and>
         or_zero (sum_amount rt st uid cat m hi) = monthly_spend_spec rt st uid cat m hi \<and>
         (filter (in_month uid cat m hi) (expenses st) \<noteq> [] \<longrightarrow>
            monthly_spend_spec rt st uid cat m hi =
              sql_sum rt (map e_amount (filter (in_month uid cat m hi) (expenses st)))) \<and>
         (filter (in_month uid cat m hi) (expenses st) = [] \<longrightarrow>
            or_zero (sum_amount rt st uid cat m hi) = Fin 0)"
proof -
  have uid: "u_id u = uid" using assms(1) by (rule get_user_id)
  have 1: "response (monthly_report rt st uid ms) =
           MonthlyReportTemplate u m (monthly_spend_spec rt st uid None m hi)
             (map (category_row rt st u m hi) (categories_of st uid))"
    using assms uid by (simp add: monthly_report_def or_zero_spec)
  have 2: "row_spent (category_row rt st u m hi c) =
           monthly_spend_spec rt st uid (Some (c_id c)) m hi"
    using uid by (simp add: category_row_def Let_def or_zero_spec)
  have 3: "filter (in_month uid cat m hi) (expenses st) \<noteq> [] \<longrightarrow>
            monthly_spend_spec rt st uid cat m hi =
              sql_sum rt (map e_amount (filter (in_month uid cat m hi) (expenses st)))"
    by (simp add: monthly_spend_spec_def spec_rows)
  have 4: "filter (in_month uid cat m hi) (expenses st) = [] \<longrightarrow>
            or_zero (sum_amount rt st uid cat m hi) = Fin 0"
    by (simp add: or_zero_sum)
  show ?thesis using 1 2 3 4 or_zero_spec [of rt st uid cat m hi] by blast
qed

theorem monthly_spend_sum_witness:
  "response (monthly_report demo_runtime demo_store 1 (Some ''2024-03'')) =
     MonthlyReportTemplate ann march (Fin 95)
       [\<lparr>row_category = food, row_budget = Fin 100, row_spent = Fin 95,
         row_remaining = Fin 5, row_status = near_limit\<rparr>,
        \<lparr>row_category = rent, row_budget = Fin 0, row_spent = Fin 0,
         row_remaining = Fin 0, row_status = ok\<rparr>] \<and>
   monthly_spend_spec demo_runtime demo_store 1 (Some 1) march
     \<lparr>year = 2024, month = 4, day = 1\<rparr> = naive_sum [Fin 60, Fin 35] \<and>
   or_zero (sum_amount demo_runtime demo_store 1 (Some 2) march
     \<lparr>year = 2024, month = 4, day = 1\<rparr>) = Fin 0"
proof -
  let ?apr = "\<lparr>year = 2024, month = 4, day = 1\<rparr>"
  have u: "get_user demo_store 1 = Some ann"
    by (simp add: demo_defs eval_defs)
  have m: "selected_month demo_runtime (Some ''2024-03'') = march"
    by (simp add: demo_defs eval_defs)
  have n: "next_month march = Inr ?apr"
    by (simp add: demo_defs eval_defs)
  have a: "filter (in_month 1 (Some 1) march ?apr) (expenses demo_store) \<noteq> []"
    and a': "sql_sum demo_runtime
               (map e_amount (filter (in_month 1 (Some 1) march ?apr) (expenses demo_store)))
             = naive_sum [Fin 60, Fin 35]"
    by (simp_all add: demo_defs eval_defs)
  have b: "filter (in_month 1 (Some 2) march ?apr) (expenses demo_store) = []"
    by (simp add: demo_defs eval_defs)
  note food_case = monthly_spend_sum [OF u m n, of food "Some 1"]
  note rent_case = monthly_spend_sum [OF u m n, of rent "Some 2"]
  have total: "monthly_spend_spec demo_runtime demo_store 1 None march ?apr = Fin 95"
    using demo_total by (simp only: or_zero_spec)
  have 1: "response (monthly_report demo_runtime demo_store 1 (Some ''2024-03'')) =
     MonthlyReportTemplate ann march (Fin 95)
       [\<lparr>row_category = food, row_budget = Fin 100, row_spent = Fin 95,
         row_remaining = Fin 5, row_status = near_limit\<rparr>,
        \<lparr>row_category = rent, row_budget = Fin 0, row_spent = Fin 0,
         row_remaining = Fin 0, row_status = ok\<rparr>]"
    using food_case [THEN conjunct1] by (simp only: total demo_rows)
  have 2: "monthly_spend_spec demo_runtime demo_store 1 (Some 1) march ?apr
           = naive_sum [Fin 60, Fin 35]"
    using food_case [THEN conjunct2, THEN conjunct2, THEN conjunct2, THEN conjunct1,
      rule_format, OF a] by (simp only: a')
  have 3: "or_zero (sum_amount demo_runtime demo_store 1 (Some 2) march ?apr) = Fin 0"
    using rent_case b by blast
  show ?thesis using 1 2 3 by blast
qed

text \<open>
  Claim C2, as the code has it. For the month December 9999 the report calls
  \<open>_next_month\<close>, which raises: with no matching expense the answer is the error and
  not a spend of 0.0.
\<close>

theorem monthly_report_december_9999:
  "get_user demo_store 1 = Some ann \<and>
   selected_month demo_runtime (Some ''9999-12'') = \<lparr>year = 9999, month = 12, day = 1\<rparr> \<and>
   filter (\<lambda>e. date_le \<lparr>year = 9999, month = 12, day = 1\<rparr> (e_date e)) (expenses demo_store) = [] \<and>
   response (monthly_report demo_runtime demo_store 1 (Some ''9999-12'')) = ServerError ValueError"
  by (simp add: demo_defs eval_defs monthly_report_def)

text \<open>
  A floating-point sum is not the sum of the real numbers: adding the doubles 0.1 and
  0.7 from left to right gives 0.7999999999999999, not the double 0.8.
\<close>

lemma naive_sum_rounds:
  "naive_sum [literal (1 / 10), literal (7 / 10)] = Fin (7205759403792793 / 9007199254740992)"
  "literal (8 / 10) = Fin (3602879701896397 / 4503599627370496)"
  by (simp_all add: naive_sum_def round_defs)

subsection \<open>Deleting a user\<close>

lemma find_filter_other:
  "v \<noteq> uid \<Longrightarrow>
   find (\<lambda>w. u_id w = v) (filter (\<lambda>w. u_id w \<noteq> uid) xs) = find (\<lambda>w. u_id w = v) xs"
  by (induction xs) auto

text \<open>
  Claim C5. For every store with a user \<open>uid\<close>, \<open>delete_user\<close> leaves the store in which
  the expenses, budgets and categories of \<open>uid\<close> and the user row are gone, so the
  queries for them are empty, and in which the rows of every other user \<open>v\<close> are what
  they were. The deletion is atomic: after each of the four deletes the committed store,
  which is what any other request reads, is still the store before the request, and the
  one commit at the end publishes all four deletions together.
\<close>

theorem delete_user_cascade:
  assumes "get_user st uid = Some u"
  shows "db (delete_user st uid) =
           \<lparr>users = filter (\<lambda>v. u_id v \<noteq> uid) (users st),
            categories = filter (\<lambda>c. c_user_id c \<noteq> uid) (categories st),
            budgets = filter (\<lambda>b. b_user_id b \<noteq> uid) (budgets st),
            expenses = filter (\<lambda>e. e_user_id e \<noteq> uid) (expenses st)\<rparr> \<and>
         map committed (run_steps (delete_user_steps uid) \<lparr>committed = st, working = st\<rparr>) =
           [st, st, st, st,
            \<lparr>users = filter (\<lambda>v. u_id v \<noteq> uid) (users st),
             categories = filter (\<lambda>c. c_user_id c \<noteq> uid) (categories st),
             budgets = filter (\<lambda>b. b_user_id b \<noteq> uid) (budgets st),
             expenses = filter (\<lambda>e. e_user_id e \<noteq> uid) (expenses st)\<rparr>] \<and>
         filter (\<lambda>e. e_user_id e = uid) (expenses (db (delete_user st uid))) = [] \<and>
         filter (\<lambda>b. b_user_id b = uid) (budgets (db (delete_user st uid))) = [] \<and>
         categories_of (db (delete_user st uid)) uid = [] \<and>
         get_user (db (delete_user st uid)) uid = None \<and>
         (v \<noteq> uid \<longrightarrow>
            filter (\<lambda>e. e_user_id e = v) (expenses (db (delete_user st uid)))
              = filter (\<lambda>e. e_user_id e = v) (expenses st) \<and>
            filter (\<lambda>b. b_user_id b = v) (budgets (db (delete_user st uid)))
              = filter (\<lambda>b. b_user_id b = v) (budgets st) \<and>
            categories_of (db (delete_user st uid)) v = categories_of st v \<and>
            get_user (db (delete_user st uid)) v = get_user st v)"
proof -
  have uid: "u_id u = uid" using assms by (rule get_user_id)
  have t: "map committed (run_steps (delete_user_steps uid) \<lparr>committed = st, working = st\<rparr>) =
           [st, st, st, st,
            \<lparr>users = filter (\<lambda>v. u_id v \<noteq> uid) (users st),
             categories = filter (\<lambda>c. c_user_id c \<noteq> uid) (categories st),
             budgets = filter (\<lambda>b. b_user_id b \<noteq> uid) (budgets st),
             expenses = filter (\<lambda>e. e_user_id e \<noteq> uid) (expenses st)\<rparr>]"
    by (simp add: delete_user_steps_def delete_expenses_of_def delete_budgets_of_def
          delete_categories_of_def delete_user_row_def commit_def)
  have "committed (last (run_steps (delete_user_steps uid) \<lparr>committed = st, working = st\<rparr>)) =
        last (map committed (run_steps (delete_user_steps uid) \<lparr>committed = st, working = st\<rparr>))"
    by (simp add: last_map delete_user_steps_def)
  then have d: "db (delete_user st uid) =
           \<lparr>users = filter (\<lambda>v. u_id v \<noteq> uid) (users st),
            categories = filter (\<lambda>c. c_user_id c \<noteq> uid) (categories st),
            budgets = filter (\<lambda>b. b_user_id b \<noteq> uid) (budgets st),
            expenses = filter (\<lambda>e. e_user_id e \<noteq> uid) (expenses st)\<rparr>"
    using assms uid by (simp add: delete_user_def t)
  show ?thesis
    unfolding d t
    by (auto simp: categories_of_def get_user_def find_None_iff filter_empty_conv
          find_filter_other intro: filter_cong)
qed

theorem delete_user_cascade_witness:
  "get_user demo_store 1 = Some ann \<and>
   db (delete_user demo_store 1) =
     \<lparr>users = [bob], categories = [bob_food],
      budgets = [\<lparr>b_id = 2, b_user_id = 2, b_category_id = 3, b_month = march,
                  b_amount = Fin 50\<rparr>],
      expenses = [\<lparr>e_id = 4, e_user_id = 2, e_category_id = 3,
                   e_date = \<lparr>year = 2024, month = 3, day = 2\<rparr>, e_amount = Fin 20,
                   e_description = None\<rparr>]\<rparr> \<and>
   map committed (butlast (run_steps (delete_user_steps 1)
                            \<lparr>committed = demo_store, working = demo_store\<rparr>)) =
     [demo_store, demo_store, demo_store, demo_store] \<and>
   get_user (db (delete_user demo_store 1)) 1 = None \<and>
   get_user (db (delete_user demo_store 1)) 2 = Some bob \<and>
   categories_of (db (delete_user demo_store 1)) 2 = [bob_food]"
proof -
  have u: "get_user demo_store 1 = Some ann"
    by (simp add: demo_defs eval_defs)
  note c = delete_user_cascade [OF u, of 2]
  have d: "db (delete_user demo_store 1) =
     \<lparr>users = [bob], categories = [bob_food],
      budgets = [\<lparr>b_id = 2, b_user_id = 2, b_category_id = 3, b_month = march,
                  b_amount = Fin 50\<rparr>],
      expenses = [\<lparr>e_id = 4, e_user_id = 2, e_category_id = 3,
                   e_date = \<lparr>year = 2024, month = 3, day = 2\<rparr>, e_amount = Fin 20,
                   e_description = None\<rparr>]\<rparr>"
    using c [THEN conjunct1] by (simp add: demo_defs)
  have "butlast (map committed (run_steps (delete_user_steps 1)
                            \<lparr>committed = demo_store, working = demo_store\<rparr>)) =
     [demo_store, demo_store, demo_store, demo_store]"
    by (simp only: c [THEN conjunct2, THEN conjunct1] butlast.simps) simp
  then have tr: "map committed (butlast (run_steps (delete_user_steps 1)
                            \<lparr>committed = demo_store, working = demo_store\<rparr>)) =
     [demo_store, demo_store, demo_store, demo_store]"
    by (simp only: map_butlast)
  have g: "get_user (db (delete_user demo_store 1)) 1 = None"
    using c by blast
  have ne: "(2::int) \<noteq> 1" by simp
  note f = c [THEN conjunct2, THEN conjunct2, THEN conjunct2, THEN conjunct2, THEN conjunct2,
    THEN conjunct2, rule_format, OF ne]
  have b: "get_user demo_store 2 = Some bob" "categories_of demo_store 2 = [bob_food]"
    by (simp_all add: demo_defs eval_defs)
  have o: "get_user (db (delete_user demo_store 1)) 2 = Some bob"
      "categories_of (db (delete_user demo_store 1)) 2 = [bob_food]"
    using f by (simp_all only: b)
  show ?thesis using u d tr g o by blast
qed

text \<open>An unknown user is a 404 and no change.\<close>

lemma delete_user_unknown:
  "get_user st uid = None \<Longrightarrow>
   delete_user st uid = \<lparr>db = st, flashes = [], response = NotFound\<rparr>"
  by (simp add: delete_user_def)

subsection \<open>Recording an expense\<close>

lemmas expense_defs = create_expense_def check_budget_def budget_alert_def reject_def
  next_id_def storable_def naive_sum_def

lemma positive_amount: "flt (Fin 0) a \<Longrightarrow> \<not> fle a (Fin 0) \<and> storable a"
  by (cases a) (simp_all add: storable_def)

text \<open>The rows the handler writes for a request that passes the three checks.\<close>

lemma create_expense_saved:
  assumes "get_user st uid = Some u" and "eq_method rq = POST"
    and "float_of rt (strip rt (case eq_amount rq of None \<Rightarrow> [] | Some s \<Rightarrow> s)) = Some a"
    and "flt (Fin 0) a"
    and "strptime_ymd rt (case eq_date rq of None \<Rightarrow> [] | Some s \<Rightarrow> s) = Some d"
    and "find (\<lambda>c. Some (c_id c) = eq_category_id rq \<and> c_user_id c = uid) (categories st) = Some c"
  shows "create_expense rt st uid rq =
         check_budget rt
           (st\<lparr>expenses := expenses st @
               [\<lparr>e_id = next_id (map e_id (expenses st)), e_user_id = uid,
                 e_category_id = c_id c, e_date = d, e_amount = a,
                 e_description =
                   (if strip rt (case eq_description rq of None \<Rightarrow> [] | Some s \<Rightarrow> s) = [] then None
                    else Some (strip rt (case eq_description rq of None \<Rightarrow> [] | Some s \<Rightarrow> s)))\<rparr>]\<rparr>)
           u c d"
proof -
  have uid: "u_id u = uid" using assms(1) by (rule get_user_id)
  show ?thesis
    using assms uid positive_amount [OF assms(4)] by (simp add: create_expense_def Let_def)
qed

lemma check_budget_db: "db (check_budget rt st u c d) = st"
  by (simp add: check_budget_def Let_def split: option.splits sum.splits)

lemma check_budget_none:
  "first_budget st (u_id u) (c_id c) (replace_day1 d) = None \<Longrightarrow>
   check_budget rt st u c d =
     \<lparr>db = st, flashes = [(ExpenseRecorded, Success)],
      response = Redirect (ListExpensesPage (u_id u))\<rparr>"
  by (simp add: check_budget_def)

lemma check_budget_some:
  "first_budget st (u_id u) (c_id c) (replace_day1 d) = Some b \<Longrightarrow>
   next_month (replace_day1 d) = Inr hi \<Longrightarrow>
   check_budget rt st u c d =
     \<lparr>db = st,
      flashes = budget_alert (c_name c) (b_amount b)
                  (monthly_spend_spec rt st (u_id u) (Some (c_id c)) (replace_day1 d) hi)
                @ [(ExpenseRecorded, Success)],
      response = Redirect (ListExpensesPage (u_id u))\<rparr>"
  by (simp add: check_budget_def or_zero_spec)

lemma check_budget_raises:
  "first_budget st (u_id u) (c_id c) (replace_day1 d) = Some b \<Longrightarrow>
   next_month (replace_day1 d) = Inl e \<Longrightarrow>
   check_budget rt st u c d = \<lparr>db = st, flashes = [], response = ServerError e\<rparr>"
  by (simp add: check_budget_def)

text \<open>
  Claim C7, amended. A request that passes the three checks with a strictly positive
  amount appends the expense to the store first. When a budget exists for the user, the
  category and the month of the date, and that month has a next month, the status of
  the budget against the month's spend, the new expense included, decides the messages:
  a warning before the success message when it is exceeded, an information when it is
  near the limit, the success message alone when it is ok. The spend is the engine's
  SUM and the status is computed on doubles. When no budget exists no status is
  evaluated and the success message stands alone.
\<close>

theorem create_expense_budget_check:
  assumes "get_user st uid = Some u" and "eq_method rq = POST"
    and "float_of rt (strip rt (case eq_amount rq of None \<Rightarrow> [] | Some s \<Rightarrow> s)) = Some a"
    and "flt (Fin 0) a"
    and "strptime_ymd rt (case eq_date rq of None \<Rightarrow> [] | Some s \<Rightarrow> s) = Some d"
    and "find (\<lambda>c. Some (c_id c) = eq_category_id rq \<and> c_user_id c = uid) (categories st) = Some c"
    and "out = create_expense rt st uid rq"
  shows "(\<exists>e. db out = st\<lparr>expenses := expenses st @ [e]\<rparr> \<and> e_user_id e = uid \<and>
              e_category_id e = c_id c \<and> e_date e = d \<and> e_amount e = a) \<and>
         (case first_budget st uid (c_id c) (replace_day1 d) of
            None \<Rightarrow>
              flashes out = [(ExpenseRecorded, Success)] \<and>
              response out = Redirect (ListExpensesPage uid)
          | Some b \<Rightarrow>
              (next_month (replace_day1 d) = Inr hi \<longrightarrow>
                 flashes out =
                   (case report_status (b_amount b)
                           (monthly_spend_spec rt (db out) uid (Some (c_id c)) (replace_day1 d) hi) of
                      exceeded \<Rightarrow>
                        [(BudgetExceeded (c_name c)
                            (fabs (fsub (b_amount b)
                               (monthly_spend_spec rt (db out) uid (Some (c_id c)) (replace_day1 d) hi))),
                          Warning)]
                    | near_limit \<Rightarrow>
                        [(BudgetNearLimit (c_name c)
                            (fsub (b_amount b)
                               (monthly_spend_spec rt (db out) uid (Some (c_id c)) (replace_day1 d) hi)),
                          Info)]
                    | ok \<Rightarrow> [])
                   @ [(ExpenseRecorded, Success)] \<and>
                 response out = Redirect (ListExpensesPage uid)))"
proof -
  let ?e = "\<lparr>e_id = next_id (map e_id (expenses st)), e_user_id = uid,
                 e_category_id = c_id c, e_date = d, e_amount = a,
                 e_description =
                   (if strip rt (case eq_description rq of None \<Rightarrow> [] | Some s \<Rightarrow> s) = [] then None
                    else Some (strip rt (case eq_description rq of None \<Rightarrow> [] | Some s \<Rightarrow> s)))\<rparr>"
  let ?st = "st\<lparr>expenses := expenses st @ [?e]\<rparr>"
  have uid: "u_id u = uid" using assms(1) by (rule get_user_id)
  have out: "out = check_budget rt ?st u c d"
    unfolding assms(7) using assms(1-6) by (rule create_expense_saved)
  have dbo: "db out = ?st" by (simp add: out check_budget_db)
  have fb: "first_budget ?st uid (c_id c) (replace_day1 d) = first_budget st uid (c_id c) (replace_day1 d)"
    by (simp add: first_budget_def)
  have 1: "\<exists>e. db out = st\<lparr>expenses := expenses st @ [e]\<rparr> \<and> e_user_id e = uid \<and>
              e_category_id e = c_id c \<and> e_date e = d \<and> e_amount e = a"
    by (rule exI [of _ ?e]) (simp add: dbo)
  have 2: "(case first_budget st uid (c_id c) (replace_day1 d) of
            None \<Rightarrow>
              flashes out = [(ExpenseRecorded, Success)] \<and>
              response out = Redirect (ListExpensesPage uid)
          | Some b \<Rightarrow>
              (next_month (replace_day1 d) = Inr hi \<longrightarrow>
                 flashes out =
                   (case report_status (b_amount b)
                           (monthly_spend_spec rt (db out) uid (Some (c_id c)) (replace_day1 d) hi) of
                      exceeded \<Rightarrow>
                        [(BudgetExceeded (c_name c)
                            (fabs (fsub (b_amount b)
                               (monthly_spend_spec rt (db out) uid (Some (c_id c)) (replace_day1 d) hi))),
                          Warning)]
                    | near_limit \<Rightarrow>
                        [(BudgetNearLimit (c_name c)
                            (fsub (b_amount b)
                               (monthly_spend_spec rt (db out) uid (Some (c_id c)) (replace_day1 d) hi)),
                          Info)]
                    | ok \<Rightarrow> [])
                   @ [(ExpenseRecorded, Success)] \<and>
                 response out = Redirect (ListExpensesPage uid)))"
  proof (cases "first_budget st uid (c_id c) (replace_day1 d)")
    case None
    then show ?thesis
      unfolding out using uid by (simp add: check_budget_none fb)
  next
    case (Some b)
    show ?thesis
      unfolding dbo unfolding out Some option.case
    proof
      assume n: "next_month (replace_day1 d) = Inr hi"
      have "first_budget ?st (u_id u) (c_id c) (replace_day1 d) = Some b"
        using Some fb uid by simp
      from check_budget_some [OF this n]
      show "flashes (check_budget rt ?st u c d) =
                   (case report_status (b_amount b)
                           (monthly_spend_spec rt ?st uid (Some (c_id c)) (replace_day1 d) hi) of
                      exceeded \<Rightarrow>
                        [(BudgetExceeded (c_name c)
                            (fabs (fsub (b_amount b)
                               (monthly_spend_spec rt ?st uid (Some (c_id c)) (replace_day1 d) hi))),
                          Warning)]
                    | near_limit \<Rightarrow>
                        [(BudgetNearLimit (c_name c)
                            (fsub (b_amount b)
                               (monthly_spend_spec rt ?st uid (Some (c_id c)) (replace_day1 d) hi)),
                          Info)]
                    | ok \<Rightarrow> [])
                   @ [(ExpenseRecorded, Success)] \<and>
                 response (check_budget rt ?st u c d) = Redirect (ListExpensesPage uid)"
        by (simp add: uid budget_alert_status)
    qed
  qed
  show ?thesis using 1 2 by blast
qed


theorem create_expense_budget_check_witness:
  "flashes (create_expense demo_runtime demo_store 1
      \<lparr>eq_method = POST, eq_category_id = Some 1, eq_amount = Some ''100'',
       eq_date = Some ''2024-03-15'', eq_description = None\<rparr>) =
     [(BudgetExceeded ''Food'' (Fin 95), Warning), (ExpenseRecorded, Success)] \<and>
   flashes (create_expense demo_runtime demo_store 2
      \<lparr>eq_method = POST, eq_category_id = Some 3, eq_amount = Some ''0.01'',
       eq_date = Some ''2024-03-15'', eq_description = None\<rparr>) =
     [(ExpenseRecorded, Success)] \<and>
   flashes (create_expense demo_runtime demo_store 1
      \<lparr>eq_method = POST, eq_category_id = Some 2, eq_amount = Some ''250'',
       eq_date = Some ''2024-03-15'', eq_description = None\<rparr>) =
     [(ExpenseRecorded, Success)]"
proof -
  let ?d = "\<lparr>year = 2024, month = 3, day = 15\<rparr>"
  let ?apr = "\<lparr>year = 2024, month = 4, day = 1\<rparr>"
  let ?rq1 = "\<lparr>eq_method = POST, eq_category_id = Some 1, eq_amount = Some ''100'',
       eq_date = Some ''2024-03-15'', eq_description = None\<rparr>"
  let ?rq2 = "\<lparr>eq_method = POST, eq_category_id = Some 3, eq_amount = Some ''0.01'',
       eq_date = Some ''2024-03-15'', eq_description = None\<rparr>"
  let ?rq3 = "\<lparr>eq_method = POST, eq_category_id = Some 2, eq_amount = Some ''250'',
       eq_date = Some ''2024-03-15'', eq_description = None\<rparr>"
  let ?b1 = "\<lparr>b_id = 1, b_user_id = 1, b_category_id = 1, b_month = march, b_amount = Fin 100\<rparr>"
  let ?b2 = "\<lparr>b_id = 2, b_user_id = 2, b_category_id = 3, b_month = march, b_amount = Fin 50\<rparr>"
  let ?cent = "Fin (5764607523034235 / 576460752303423488)"
  let ?spent2 = "Fin (5632314283980227 / 281474976710656)"
  have cent: "literal (1 / 100) = ?cent"
    by (simp add: round_defs)
  have u1: "get_user demo_store 1 = Some ann" and u2: "get_user demo_store 2 = Some bob"
    by (simp_all add: demo_defs eval_defs)
  have p: "eq_method ?rq1 = POST" "eq_method ?rq2 = POST" "eq_method ?rq3 = POST"
    by simp_all
  have a1: "float_of demo_runtime
              (strip demo_runtime (case eq_amount ?rq1 of None \<Rightarrow> [] | Some s \<Rightarrow> s))
            = Some (Fin 100)"
    and a3: "float_of demo_runtime
              (strip demo_runtime (case eq_amount ?rq3 of None \<Rightarrow> [] | Some s \<Rightarrow> s))
            = Some (Fin 250)"
    by (simp_all add: demo_defs)
  have a2: "float_of demo_runtime
              (strip demo_runtime (case eq_amount ?rq2 of None \<Rightarrow> [] | Some s \<Rightarrow> s))
            = Some ?cent"
    by (simp add: demo_defs) (simp add: round_defs)
  have pos: "flt (Fin 0) (Fin 100)" "flt (Fin 0) ?cent" "flt (Fin 0) (Fin 250)"
    by simp_all
  have d1: "strptime_ymd demo_runtime (case eq_date ?rq1 of None \<Rightarrow> [] | Some s \<Rightarrow> s) = Some ?d"
    and d2: "strptime_ymd demo_runtime (case eq_date ?rq2 of None \<Rightarrow> [] | Some s \<Rightarrow> s) = Some ?d"
    and d3: "strptime_ymd demo_runtime (case eq_date ?rq3 of None \<Rightarrow> [] | Some s \<Rightarrow> s) = Some ?d"
    by (simp_all add: demo_defs)
  have c1: "find (\<lambda>c. Some (c_id c) = eq_category_id ?rq1 \<and> c_user_id c = 1)
              (categories demo_store) = Some food"
    and c2: "find (\<lambda>c. Some (c_id c) = eq_category_id ?rq2 \<and> c_user_id c = 2)
              (categories demo_store) = Some bob_food"
    and c3: "find (\<lambda>c. Some (c_id c) = eq_category_id ?rq3 \<and> c_user_id c = 1)
              (categories demo_store) = Some rent"
    by (simp_all add: demo_defs)
  have n: "next_month (replace_day1 ?d) = Inr ?apr"
    by (simp add: eval_defs)
  have f1: "first_budget demo_store 1 (c_id food) (replace_day1 ?d) = Some ?b1"
    and f2: "first_budget demo_store 2 (c_id bob_food) (replace_day1 ?d) = Some ?b2"
    and f3: "first_budget demo_store 1 (c_id rent) (replace_day1 ?d) = None"
    by (simp_all add: demo_defs eval_defs)
  note t1 = create_expense_budget_check [OF u1 p(1) a1 pos(1) d1 c1 refl, of ?apr]
  note t2 = create_expense_budget_check [OF u2 p(2) a2 pos(2) d2 c2 refl, of ?apr]
  note t3 = create_expense_budget_check [OF u1 p(3) a3 pos(3) d3 c3 refl, of ?apr]
  obtain e1 where db1: "db (create_expense demo_runtime demo_store 1 ?rq1) =
        demo_store\<lparr>expenses := expenses demo_store @ [e1]\<rparr>"
      and e1: "e_user_id e1 = 1" "e_category_id e1 = c_id food" "e_date e1 = ?d"
        "e_amount e1 = Fin 100"
    using t1 [THEN conjunct1] by blast
  obtain e2 where db2: "db (create_expense demo_runtime demo_store 2 ?rq2) =
        demo_store\<lparr>expenses := expenses demo_store @ [e2]\<rparr>"
      and e2: "e_user_id e2 = 2" "e_category_id e2 = c_id bob_food" "e_date e2 = ?d"
        "e_amount e2 = ?cent"
    using t2 [THEN conjunct1] by blast
  have s1: "monthly_spend_spec demo_runtime (db (create_expense demo_runtime demo_store 1 ?rq1)) 1
              (Some (c_id food)) (replace_day1 ?d) ?apr = Fin 195"
    unfolding db1
    by (simp add: monthly_spend_spec_def e1 demo_defs eval_defs naive_sum_def round_small)
  have s2: "monthly_spend_spec demo_runtime (db (create_expense demo_runtime demo_store 2 ?rq2)) 2
              (Some (c_id bob_food)) (replace_day1 ?d) ?apr = ?spent2"
    unfolding db2
    by (simp add: monthly_spend_spec_def e2 demo_defs eval_defs naive_sum_def round_small)
       (simp add: round_defs)
  have r1: "report_status (b_amount ?b1) (Fin 195) = exceeded"
    by (simp add: report_status_def fsub_def round_small)
  have r2: "report_status (b_amount ?b2) ?spent2 = ok"
    by (simp add: report_status_def fsub_def tenth) (simp add: round_defs)
  have 1: "flashes (create_expense demo_runtime demo_store 1 ?rq1) =
     [(BudgetExceeded ''Food'' (Fin 95), Warning), (ExpenseRecorded, Success)]"
    using t1 [THEN conjunct2, unfolded f1 option.case, rule_format, OF n, THEN conjunct1,
        unfolded s1 r1]
    by (simp add: fsub_def food_def round_small)
  have 2: "flashes (create_expense demo_runtime demo_store 2 ?rq2) = [(ExpenseRecorded, Success)]"
    using t2 [THEN conjunct2, unfolded f2 option.case, rule_format, OF n, THEN conjunct1,
        unfolded s2 r2]
    by simp
  have 3: "flashes (create_expense demo_runtime demo_store 1 ?rq3) = [(ExpenseRecorded, Success)]"
    using t3 [THEN conjunct2, unfolded f3 option.case, THEN conjunct1] .
  show ?thesis using 1 2 3 by blast
qed

text \<open>
  Claim C7, as the code has it. Rent has no budget in March: an expense of 250 is saved
  with the success message alone, while the monthly report of the same store gives the
  category the status \<open>exceeded\<close>.
\<close>

theorem create_expense_without_budget:
  "create_expense demo_runtime demo_store 1
     \<lparr>eq_method = POST, eq_category_id = Some 2, eq_amount = Some ''250'',
      eq_date = Some ''2024-03-15'', eq_description = None\<rparr> =
   \<lparr>db = demo_store\<lparr>expenses := expenses demo_store @
          [\<lparr>e_id = 5, e_user_id = 1, e_category_id = 2,
            e_date = \<lparr>year = 2024, month = 3, day = 15\<rparr>, e_amount = Fin 250,
            e_description = None\<rparr>]\<rparr>,
    flashes = [(ExpenseRecorded, Success)],
    response = Redirect (ListExpensesPage 1)\<rparr> \<and>
   row_status (category_row demo_runtime
       (db (create_expense demo_runtime demo_store 1
          \<lparr>eq_method = POST, eq_category_id = Some 2, eq_amount = Some ''250'',
           eq_date = Some ''2024-03-15'', eq_description = None\<rparr>))
       ann march \<lparr>year = 2024, month = 4, day = 1\<rparr> rent) = exceeded"
proof -
  have r: "round_double 250 = Fin 250" "round_double (- 250) = Fin (- 250)"
    by (simp_all add: round_defs)
  have c: "create_expense demo_runtime demo_store 1
     \<lparr>eq_method = POST, eq_category_id = Some 2, eq_amount = Some ''250'',
      eq_date = Some ''2024-03-15'', eq_description = None\<rparr> =
   \<lparr>db = demo_store\<lparr>expenses := expenses demo_store @
          [\<lparr>e_id = 5, e_user_id = 1, e_category_id = 2,
            e_date = \<lparr>year = 2024, month = 3, day = 15\<rparr>, e_amount = Fin 250,
            e_description = None\<rparr>]\<rparr>,
    flashes = [(ExpenseRecorded, Success)],
    response = Redirect (ListExpensesPage 1)\<rparr>"
    by (simp add: demo_defs eval_defs expense_defs)
  show ?thesis
    unfolding c
    by (simp add: demo_defs eval_defs category_row_def report_status_def fsub_def
          naive_sum_def r)
qed

text \<open>
  Claim C6 at the amount \<open>nan\<close>. \<open>float("nan")\<close> is NaN, which is not a strictly
  positive number; \<open>amount <= 0\<close> is false for it, so the handler flashes no
  validation error and goes on to the commit, where the store refuses the amount: the
  answer is the 500 of an IntegrityError and not the rejection of the form.
\<close>

theorem create_expense_nan_unvalidated:
  "float_of demo_runtime ''nan'' = Some NaN \<and> \<not> flt (Fin 0) NaN \<and> \<not> fle NaN (Fin 0) \<and>
   create_expense demo_runtime demo_store 1
     \<lparr>eq_method = POST, eq_category_id = Some 1, eq_amount = Some ''nan'',
      eq_date = Some ''2024-03-15'', eq_description = None\<rparr> =
   \<lparr>db = demo_store, flashes = [], response = ServerError IntegrityError\<rparr> \<and>
   create_expense demo_runtime demo_store 1
     \<lparr>eq_method = POST, eq_category_id = Some 1, eq_amount = Some ''nan'',
      eq_date = Some ''2024-03-15'', eq_description = None\<rparr> \<noteq>
   reject demo_store 1 AmountMustBePositive"
  by (simp add: demo_defs eval_defs expense_defs)

text \<open>
  The checks that do reject: an amount that does not parse or is \<open><= 0\<close>, then a date
  that does not parse, then a category that is not one of the user's. Each leaves the
  store as it was.
\<close>

lemma create_expense_validation:
  assumes "get_user st uid = Some u" and "eq_method rq = POST"
  shows "float_of rt (strip rt (case eq_amount rq of None \<Rightarrow> [] | Some s \<Rightarrow> s)) = None
           \<Longrightarrow> create_expense rt st uid rq = reject st uid AmountMustBePositive"
    and "float_of rt (strip rt (case eq_amount rq of None \<Rightarrow> [] | Some s \<Rightarrow> s)) = Some a
           \<Longrightarrow> fle a (Fin 0)
           \<Longrightarrow> create_expense rt st uid rq = reject st uid AmountMustBePositive"
    and "float_of rt (strip rt (case eq_amount rq of None \<Rightarrow> [] | Some s \<Rightarrow> s)) = Some a
           \<Longrightarrow> \<not> fle a (Fin 0)
           \<Longrightarrow> strptime_ymd rt (case eq_date rq of None \<Rightarrow> [] | Some s \<Rightarrow> s) = None
           \<Longrightarrow> create_expense rt st uid rq = reject st uid InvalidDate"
    and "float_of rt (strip rt (case eq_amount rq of None \<Rightarrow> [] | Some s \<Rightarrow> s)) = Some a
           \<Longrightarrow> \<not> fle a (Fin 0)
           \<Longrightarrow> strptime_ymd rt (case eq_date rq of None \<Rightarrow> [] | Some s \<Rightarrow> s) = Some d
           \<Longrightarrow> find (\<lambda>c. Some (c_id c) = eq_category_id rq \<and> c_user_id c = uid) (categories st) = None
           \<Longrightarrow> create_expense rt st uid rq = reject st uid InvalidCategory"
    and "db (reject st uid msg) = st"
proof -
  have uid: "u_id u = uid" using assms(1) by (rule get_user_id)
  show "float_of rt (strip rt (case eq_amount rq of None \<Rightarrow> [] | Some s \<Rightarrow> s)) = None
           \<Longrightarrow> create_expense rt st uid rq = reject st uid AmountMustBePositive"
    using assms uid by (simp add: create_expense_def Let_def)
  show "float_of rt (strip rt (case eq_amount rq of None \<Rightarrow> [] | Some s \<Rightarrow> s)) = Some a
           \<Longrightarrow> fle a (Fin 0)
           \<Longrightarrow> create_expense rt st uid rq = reject st uid AmountMustBePositive"
    using assms uid by (simp add: create_expense_def Let_def)
  show "float_of rt (strip rt (case eq_amount rq of None \<Rightarrow> [] | Some s \<Rightarrow> s)) = Some a
           \<Longrightarrow> \<not> fle a (Fin 0)
           \<Longrightarrow> strptime_ymd rt (case eq_date rq of None \<Rightarrow> [] | Some s \<Rightarrow> s) = None
           \<Longrightarrow> create_expense rt st uid rq = reject st uid InvalidDate"
    using assms uid by (simp add: create_expense_def Let_def)
  show "float_of rt (strip rt (case eq_amount rq of None \<Rightarrow> [] | Some s \<Rightarrow> s)) = Some a
           \<Longrightarrow> \<not> fle a (Fin 0)
           \<Longrightarrow> strptime_ymd rt (case eq_date rq of None \<Rightarrow> [] | Some s \<Rightarrow> s) = Some d
           \<Longrightarrow> find (\<lambda>c. Some (c_id c) = eq_category_id rq \<and> c_user_id c = uid) (categories st) = None
           \<Longrightarrow> create_expense rt st uid rq = reject st uid InvalidCategory"
    using assms uid by (simp add: create_expense_def Let_def)
  show "db (reject st uid msg) = st" by (simp add: reject_def)
qed

subsection \<open>Budgets\<close>

lemma foldr_max_ge: "i \<in> set ids \<Longrightarrow> i \<le> foldr max ids (0::int)"
  by (induction ids) auto

lemma next_id_fresh: "next_id ids \<notin> set ids"
proof
  assume "next_id ids \<in> set ids"
  then have "next_id ids \<le> foldr max ids 0" by (rule foldr_max_ge)
  then show False by (simp add: next_id_def)
qed

lemma find_filter_hd: "find P xs = (case filter P xs of [] \<Rightarrow> None | x # _ \<Rightarrow> Some x)"
  by (induction xs) auto

lemma first_budget_filter:
  "filter (budget_matches uid cid m) (budgets s) = filter (budget_matches uid cid m) (budgets t)
   \<Longrightarrow> first_budget s uid cid m = first_budget t uid cid m"
  by (simp add: first_budget_def find_filter_hd)

lemma budget_matches_amount [simp]:
  "budget_matches uid cid m (b\<lparr>b_amount := a\<rparr>) = budget_matches uid cid m b"
  by (simp add: budget_matches_def)

lemma budget_key_amount [simp]: "budget_key (b\<lparr>b_amount := a\<rparr>) = budget_key b"
  by (simp add: budget_key_def)

lemma budget_matches_key: "budget_matches uid cid m b = (budget_key b = (uid, cid, m))"
  by (auto simp: budget_matches_def budget_key_def)

lemma upsert_other_tables:
  "users (upsert_budget st uid cid m a) = users st"
  "categories (upsert_budget st uid cid m a) = categories st"
  "expenses (upsert_budget st uid cid m a) = expenses st"
  by (simp_all add: upsert_budget_def split: option.splits)

lemma map_id_update:
  "map b_id (map (\<lambda>b. if b_id b = i then b\<lparr>b_amount := a\<rparr> else b) bs) = map b_id bs"
  by (induction bs) auto

lemma map_key_update:
  "map budget_key (map (\<lambda>b. if b_id b = i then b\<lparr>b_amount := a\<rparr> else b) bs) = map budget_key bs"
  by (induction bs) auto

lemma upsert_some_budgets:
  "first_budget st uid cid m = Some b0 \<Longrightarrow>
   budgets (upsert_budget st uid cid m a) =
     map (\<lambda>b. if b_id b = b_id b0 then b\<lparr>b_amount := a\<rparr> else b) (budgets st)"
  by (simp add: upsert_budget_def)

lemma upsert_none_budgets:
  "first_budget st uid cid m = None \<Longrightarrow>
   budgets (upsert_budget st uid cid m a) =
     budgets st @ [\<lparr>b_id = next_id (map b_id (budgets st)), b_user_id = uid,
                     b_category_id = cid, b_month = m, b_amount = a\<rparr>]"
  by (simp add: upsert_budget_def)

lemma find_append_None: "find P xs = None \<Longrightarrow> find P (xs @ ys) = find P ys"
  by (induction xs) (auto split: if_splits)

lemma upsert_ids:
  "distinct (map b_id (budgets st)) \<Longrightarrow> distinct (map b_id (budgets (upsert_budget st uid cid m a)))"
proof (cases "first_budget st uid cid m")
  case None
  assume "distinct (map b_id (budgets st))"
  then show ?thesis
    using None next_id_fresh [of "map b_id (budgets st)"] by (simp add: upsert_budget_def)
next
  case (Some b0)
  assume "distinct (map b_id (budgets st))"
  then show ?thesis by (simp only: upsert_some_budgets [OF Some] map_id_update)
qed

lemma upsert_keys:
  "distinct (map budget_key (budgets st)) \<Longrightarrow>
   distinct (map budget_key (budgets (upsert_budget st uid cid m a)))"
proof (cases "first_budget st uid cid m")
  case None
  then have "(uid, cid, m) \<notin> set (map budget_key (budgets st))"
    by (auto simp: first_budget_def find_None_iff budget_matches_key)
  moreover assume "distinct (map budget_key (budgets st))"
  ultimately show ?thesis
    using None by (simp add: upsert_budget_def budget_key_def)
next
  case (Some b0)
  assume "distinct (map budget_key (budgets st))"
  then show ?thesis by (simp only: upsert_some_budgets [OF Some] map_key_update)
qed

lemma upsert_inv: "budget_inv st \<Longrightarrow> budget_inv (upsert_budget st uid cid m a)"
  by (simp add: budget_inv_def upsert_ids upsert_keys)

text \<open>After the update-or-insert the first budget of the triple holds the amount.\<close>

lemma find_map_update:
  "find (budget_matches uid cid m) bs = Some b0 \<Longrightarrow>
   find (budget_matches uid cid m)
     (map (\<lambda>b. if b_id b = b_id b0 then b\<lparr>b_amount := a\<rparr> else b) bs)
   = Some (b0\<lparr>b_amount := a\<rparr>)"
  by (induction bs) (auto split: if_splits)

lemma upsert_first:
  "\<exists>b. first_budget (upsert_budget st uid cid m a) uid cid m = Some b \<and> b_amount b = a"
proof (cases "first_budget st uid cid m")
  case None
  then have "find (budget_matches uid cid m) (budgets st) = None"
    by (simp add: first_budget_def)
  then show ?thesis
    by (simp add: upsert_none_budgets [OF None] first_budget_def find_append_None
          budget_matches_def)
next
  case (Some b0)
  then have "find (budget_matches uid cid m) (budgets st) = Some b0"
    by (simp add: first_budget_def)
  then show ?thesis
    by (simp only: upsert_some_budgets [OF Some] first_budget_def find_map_update) simp
qed

text \<open>With unique primary keys, the budgets of every other triple stay as they were.\<close>

lemma filter_map_update_other:
  assumes "distinct (map b_id bs)" and "b0 \<in> set bs" and "\<not> budget_matches uid cid m b0"
  shows "filter (budget_matches uid cid m)
           (map (\<lambda>b. if b_id b = b_id b0 then b\<lparr>b_amount := a\<rparr> else b) bs)
         = filter (budget_matches uid cid m) bs"
proof -
  have inj: "inj_on b_id (set bs)" using assms(1) by (simp add: distinct_map)
  have "\<And>b. b \<in> set bs \<Longrightarrow> b_id b = b_id b0 \<Longrightarrow> b = b0"
    using inj assms(2) by (auto dest: inj_onD)
  then have "\<And>b. b \<in> set bs \<Longrightarrow> budget_matches uid cid m b \<Longrightarrow> b_id b \<noteq> b_id b0"
    using assms(3) by auto
  then show ?thesis
    by (induction bs) auto
qed

lemma upsert_frame:
  assumes "distinct (map b_id (budgets st))" and "(uid', cid', m') \<noteq> (uid, cid, m)"
  shows "filter (budget_matches uid cid m) (budgets (upsert_budget st uid' cid' m' a))
         = filter (budget_matches uid cid m) (budgets st)"
proof (cases "first_budget st uid' cid' m'")
  case None
  then show ?thesis
    using assms(2) by (auto simp: upsert_budget_def budget_matches_def)
next
  case (Some b0)
  then have "b0 \<in> set (budgets st)" and "budget_matches uid' cid' m' b0"
    by (auto simp: first_budget_def find_Some_iff)
  then have in_set: "b0 \<in> set (budgets st)" and other: "\<not> budget_matches uid cid m b0"
    using assms(2) by (auto simp: budget_matches_def)
  show ?thesis
    unfolding upsert_some_budgets [OF Some]
    using assms(1) in_set other by (rule filter_map_update_other)
qed


lemma upsert_holds: "holds_amount (upsert_budget st uid cid m a) uid cid m a"
  using upsert_first [of st uid cid m a] by (auto simp: holds_amount_def)


text \<open>One turn of the loop.\<close>

lemma item_Inl: "budget_item rt uid m form c (Inl fl) = Inl fl"
  by (simp add: budget_item_def)

lemma loop_Inl: "budget_loop rt uid m form cs (Inl fl) = Inl fl"
  unfolding budget_loop_def by (induction cs) (simp_all add: item_Inl)

lemma item_bad:
  assumes "form (c_id c) = Some raw" and "strip rt raw \<noteq> []"
    and "float_of rt raw = None \<or> (\<exists>a. float_of rt raw = Some a \<and> flt a (Fin 0))"
  shows "budget_item rt uid m form c (Inr bt) =
         Inr (bt\<lparr>bt_flashes := bt_flashes bt @ [(InvalidBudgetAmount (c_name c), Error)]\<rparr>)"
  using assms by (auto simp: budget_item_def)

lemma item_good:
  assumes "form (c_id c) = Some raw" and "strip rt raw \<noteq> []"
    and "float_of rt raw = Some a" and "\<not> flt a (Fin 0)"
  shows "budget_item rt uid m form c (Inr bt) =
         (if bt_refused bt then Inl (bt_flashes bt)
          else Inr (bt\<lparr>bt_store := upsert_budget (bt_store bt) uid (c_id c) m a,
                        bt_refused := \<not> storable a\<rparr>))"
  using assms by (simp add: budget_item_def)

lemma item_store:
  assumes "budget_item rt uid m form c (Inr bt) = Inr bt'"
  shows "bt_store bt' = bt_store bt \<or>
         (\<exists>a. bt_store bt' = upsert_budget (bt_store bt) uid (c_id c) m a)"
  using assms by (auto simp: budget_item_def split: option.splits if_splits)

lemma item_flashes:
  assumes "budget_item rt uid m form c (Inr bt) = Inr bt'"
  shows "set (bt_flashes bt) \<subseteq> set (bt_flashes bt')"
  using assms by (auto simp: budget_item_def split: option.splits if_splits)

lemma item_refused:
  assumes "budget_item rt uid m form c (Inr bt) = Inr bt'" and "bt_refused bt"
  shows "bt_refused bt'"
  using assms by (auto simp: budget_item_def split: option.splits if_splits)

lemma item_inv:
  "budget_item rt uid m form c (Inr bt) = Inr bt' \<Longrightarrow> budget_inv (bt_store bt) \<Longrightarrow>
   budget_inv (bt_store bt')"
  using item_store [of rt uid m form c bt bt'] by (auto simp: upsert_inv)

lemma item_ids:
  "budget_item rt uid m form c (Inr bt) = Inr bt' \<Longrightarrow>
   distinct (map b_id (budgets (bt_store bt))) \<Longrightarrow>
   distinct (map b_id (budgets (bt_store bt')))"
  using item_store [of rt uid m form c bt bt'] by (auto simp: upsert_ids)

lemma item_other_tables:
  assumes "budget_item rt uid m form c (Inr bt) = Inr bt'"
  shows "users (bt_store bt') = users (bt_store bt)"
    and "categories (bt_store bt') = categories (bt_store bt)"
    and "expenses (bt_store bt') = expenses (bt_store bt)"
  using item_store [OF assms] by (auto simp: upsert_other_tables)

lemma item_frame:
  assumes "budget_item rt uid m form c (Inr bt) = Inr bt'"
    and "distinct (map b_id (budgets (bt_store bt)))" and "c_id c \<noteq> cid"
  shows "filter (budget_matches uid cid m) (budgets (bt_store bt'))
         = filter (budget_matches uid cid m) (budgets (bt_store bt))"
  using item_store [OF assms(1)] assms(2,3) by (auto simp: upsert_frame)

text \<open>The whole loop, when it ends without an exception.\<close>

lemma loop_Cons:
  assumes "budget_loop rt uid m form (c # cs) (Inr bt) = Inr bt'"
  obtains bt1 where "budget_item rt uid m form c (Inr bt) = Inr bt1"
    and "budget_loop rt uid m form cs (Inr bt1) = Inr bt'"
proof (cases "budget_item rt uid m form c (Inr bt)")
  case (Inl fl)
  then have "budget_loop rt uid m form (c # cs) (Inr bt) = Inl fl"
    using loop_Inl [of rt uid m form cs fl] by (simp add: budget_loop_def)
  then show ?thesis using assms by simp
next
  case (Inr bt1)
  then have "budget_loop rt uid m form cs (Inr bt1) = Inr bt'"
    using assms by (simp add: budget_loop_def)
  then show ?thesis using Inr that by blast
qed

lemma loop_inv:
  "budget_loop rt uid m form cs (Inr bt) = Inr bt' \<Longrightarrow> budget_inv (bt_store bt) \<Longrightarrow>
   budget_inv (bt_store bt')"
proof (induction cs arbitrary: bt)
  case Nil
  then show ?case by (simp add: budget_loop_def)
next
  case (Cons c cs)
  from Cons.prems(1) obtain bt1 where 1: "budget_item rt uid m form c (Inr bt) = Inr bt1"
    and 2: "budget_loop rt uid m form cs (Inr bt1) = Inr bt'" by (rule loop_Cons)
  from 1 Cons.prems(2) have "budget_inv (bt_store bt1)" by (rule item_inv)
  with 2 show ?case by (rule Cons.IH)
qed

lemma loop_ids:
  "budget_loop rt uid m form cs (Inr bt) = Inr bt' \<Longrightarrow>
   distinct (map b_id (budgets (bt_store bt))) \<Longrightarrow>
   distinct (map b_id (budgets (bt_store bt')))"
proof (induction cs arbitrary: bt)
  case Nil
  then show ?case by (simp add: budget_loop_def)
next
  case (Cons c cs)
  from Cons.prems(1) obtain bt1 where 1: "budget_item rt uid m form c (Inr bt) = Inr bt1"
    and 2: "budget_loop rt uid m form cs (Inr bt1) = Inr bt'" by (rule loop_Cons)
  from 1 Cons.prems(2) have "distinct (map b_id (budgets (bt_store bt1)))" by (rule item_ids)
  with 2 show ?case by (rule Cons.IH)
qed

lemma loop_other_tables:
  assumes "budget_loop rt uid m form cs (Inr bt) = Inr bt'"
  shows "users (bt_store bt') = users (bt_store bt) \<and>
         categories (bt_store bt') = categories (bt_store bt) \<and>
         expenses (bt_store bt') = expenses (bt_store bt)"
  using assms
proof (induction cs arbitrary: bt)
  case Nil
  then show ?case by (simp add: budget_loop_def)
next
  case (Cons c cs)
  from Cons.prems obtain bt1 where 1: "budget_item rt uid m form c (Inr bt) = Inr bt1"
    and 2: "budget_loop rt uid m form cs (Inr bt1) = Inr bt'" by (rule loop_Cons)
  from Cons.IH [OF 2] item_other_tables [OF 1] show ?case by simp
qed

lemma loop_flashes:
  "budget_loop rt uid m form cs (Inr bt) = Inr bt' \<Longrightarrow>
   set (bt_flashes bt) \<subseteq> set (bt_flashes bt')"
proof (induction cs arbitrary: bt)
  case Nil
  then show ?case by (simp add: budget_loop_def)
next
  case (Cons c cs)
  from Cons.prems obtain bt1 where 1: "budget_item rt uid m form c (Inr bt) = Inr bt1"
    and 2: "budget_loop rt uid m form cs (Inr bt1) = Inr bt'" by (rule loop_Cons)
  from item_flashes [OF 1] Cons.IH [OF 2] show ?case by blast
qed

lemma loop_refused:
  "budget_loop rt uid m form cs (Inr bt) = Inr bt' \<Longrightarrow> bt_refused bt \<Longrightarrow> bt_refused bt'"
proof (induction cs arbitrary: bt)
  case Nil
  then show ?case by (simp add: budget_loop_def)
next
  case (Cons c cs)
  from Cons.prems(1) obtain bt1 where 1: "budget_item rt uid m form c (Inr bt) = Inr bt1"
    and 2: "budget_loop rt uid m form cs (Inr bt1) = Inr bt'" by (rule loop_Cons)
  from 1 Cons.prems(2) have "bt_refused bt1" by (rule item_refused)
  with 2 show ?case by (rule Cons.IH)
qed

text \<open>A category whose submitted amount is refused: its budgets stay, the error is flashed.\<close>

lemma loop_bad_frame:
  assumes "form cid = Some raw" and "strip rt raw \<noteq> []"
    and "float_of rt raw = None \<or> (\<exists>a. float_of rt raw = Some a \<and> flt a (Fin 0))"
  shows "budget_loop rt uid m form cs (Inr bt) = Inr bt' \<Longrightarrow>
         distinct (map b_id (budgets (bt_store bt))) \<Longrightarrow>
         filter (budget_matches uid cid m) (budgets (bt_store bt'))
         = filter (budget_matches uid cid m) (budgets (bt_store bt))"
proof (induction cs arbitrary: bt)
  case Nil
  then show ?case by (simp add: budget_loop_def)
next
  case (Cons c cs)
  from Cons.prems(1) obtain bt1 where 1: "budget_item rt uid m form c (Inr bt) = Inr bt1"
    and 2: "budget_loop rt uid m form cs (Inr bt1) = Inr bt'" by (rule loop_Cons)
  have step: "filter (budget_matches uid cid m) (budgets (bt_store bt1))
         = filter (budget_matches uid cid m) (budgets (bt_store bt))"
  proof (cases "c_id c = cid")
    case True
    then have "form (c_id c) = Some raw" using assms(1) by simp
    from item_bad [where form = form and c = c and rt = rt, OF this assms(2,3)] 1
    show ?thesis by auto
  next
    case False
    with 1 Cons.prems(2) show ?thesis by (rule item_frame)
  qed
  have "distinct (map b_id (budgets (bt_store bt1)))"
    using 1 Cons.prems(2) by (rule item_ids)
  from Cons.IH [OF 2 this] step show ?case by simp
qed

lemma loop_bad_flash:
  assumes "form (c_id c) = Some raw" and "strip rt raw \<noteq> []"
    and "float_of rt raw = None \<or> (\<exists>a. float_of rt raw = Some a \<and> flt a (Fin 0))"
  shows "budget_loop rt uid m form cs (Inr bt) = Inr bt' \<Longrightarrow> c \<in> set cs \<Longrightarrow>
         (InvalidBudgetAmount (c_name c), Error) \<in> set (bt_flashes bt')"
proof (induction cs arbitrary: bt)
  case Nil
  then show ?case by simp
next
  case (Cons x cs)
  from Cons.prems(1) obtain bt1 where 1: "budget_item rt uid m form x (Inr bt) = Inr bt1"
    and 2: "budget_loop rt uid m form cs (Inr bt1) = Inr bt'" by (rule loop_Cons)
  show ?case
  proof (cases "x = c")
    case True
    from item_bad [where form = form and c = c and rt = rt, OF assms] 1 True
    have "(InvalidBudgetAmount (c_name c), Error) \<in> set (bt_flashes bt1)" by auto
    then show ?thesis using loop_flashes [OF 2] by blast
  next
    case False
    with Cons.prems(2) have "c \<in> set cs" by simp
    with 2 show ?thesis by (rule Cons.IH)
  qed
qed

text \<open>A category whose submitted amount is accepted: its first budget holds the amount.\<close>

lemma item_good_holds:
  assumes "form cid = Some raw" and "strip rt raw \<noteq> []"
    and "float_of rt raw = Some a" and "\<not> flt a (Fin 0)"
    and "budget_item rt uid m form c (Inr bt) = Inr bt'"
    and "distinct (map b_id (budgets (bt_store bt)))"
    and "c_id c = cid \<or> holds_amount (bt_store bt) uid cid m a"
  shows "holds_amount (bt_store bt') uid cid m a"
proof (cases "c_id c = cid")
  case True
  then have "form (c_id c) = Some raw" using assms(1) by simp
  from item_good [where form = form and c = c and rt = rt, OF this assms(2-4)] assms(5) True
  have "bt_store bt' = upsert_budget (bt_store bt) uid cid m a"
    by (auto split: if_splits)
  then show ?thesis by (simp add: upsert_holds)
next
  case False
  then have h: "holds_amount (bt_store bt) uid cid m a" using assms(7) by simp
  have "first_budget (bt_store bt') uid cid m = first_budget (bt_store bt) uid cid m"
    using assms(5,6) False by (intro first_budget_filter item_frame)
  with h show ?thesis by (simp add: holds_amount_def)
qed

lemma loop_good_holds:
  assumes "form cid = Some raw" and "strip rt raw \<noteq> []"
    and "float_of rt raw = Some a" and "\<not> flt a (Fin 0)"
  shows "budget_loop rt uid m form cs (Inr bt) = Inr bt' \<Longrightarrow>
         distinct (map b_id (budgets (bt_store bt))) \<Longrightarrow>
         cid \<in> c_id ` set cs \<or> holds_amount (bt_store bt) uid cid m a \<Longrightarrow>
         holds_amount (bt_store bt') uid cid m a"
proof (induction cs arbitrary: bt)
  case Nil
  then show ?case by (simp add: budget_loop_def)
next
  case (Cons c cs)
  from Cons.prems(1) obtain bt1 where 1: "budget_item rt uid m form c (Inr bt) = Inr bt1"
    and 2: "budget_loop rt uid m form cs (Inr bt1) = Inr bt'" by (rule loop_Cons)
  have ids: "distinct (map b_id (budgets (bt_store bt1)))"
    using 1 Cons.prems(2) by (rule item_ids)
  show ?case
  proof (cases "c_id c = cid \<or> holds_amount (bt_store bt) uid cid m a")
    case True
    from item_good_holds [where form = form and rt = rt, OF assms 1 Cons.prems(2) True]
    have "holds_amount (bt_store bt1) uid cid m a" .
    then show ?thesis using Cons.IH [OF 2 ids] by simp
  next
    case False
    with Cons.prems(3) have "cid \<in> c_id ` set cs" by auto
    then show ?thesis using Cons.IH [OF 2 ids] by simp
  qed
qed

text \<open>An accepted NaN: the loop, if it ends at all, ends with the refused change pending.\<close>

lemma loop_nan_refused:
  assumes "form (c_id c) = Some raw" and "strip rt raw \<noteq> []"
    and "float_of rt raw = Some NaN"
  shows "budget_loop rt uid m form cs (Inr bt) = Inr bt' \<Longrightarrow> c \<in> set cs \<Longrightarrow> bt_refused bt'"
proof (induction cs arbitrary: bt)
  case Nil
  then show ?case by simp
next
  case (Cons x cs)
  from Cons.prems(1) obtain bt1 where 1: "budget_item rt uid m form x (Inr bt) = Inr bt1"
    and 2: "budget_loop rt uid m form cs (Inr bt1) = Inr bt'" by (rule loop_Cons)
  show ?case
  proof (cases "x = c")
    case True
    have "\<not> flt NaN (Fin 0)" by simp
    from item_good [where form = form and c = c and rt = rt, OF assms this] 1 True
    have "bt_refused bt1" by (auto simp: storable_def split: if_splits)
    with 2 show ?thesis by (rule loop_refused)
  next
    case False
    with Cons.prems(2) have "c \<in> set cs" by simp
    with 2 show ?thesis by (rule Cons.IH)
  qed
qed

text \<open>The handler.\<close>

lemma manage_budgets_post:
  assumes "get_user st uid = Some u" and "bq_method rq = POST"
    and "bq_form_month rq = Some ms" and "strptime_ym rt ms = Some m"
  shows "manage_budgets rt st uid rq =
         (case budget_loop rt uid m (bq_form_budget rq) (categories_of st uid)
                 (Inr \<lparr>bt_store = st, bt_flashes = [], bt_refused = False\<rparr>) of
            Inl fl \<Rightarrow> \<lparr>db = st, flashes = fl, response = ServerError IntegrityError\<rparr>
          | Inr bt \<Rightarrow>
              if bt_refused bt
              then \<lparr>db = st, flashes = bt_flashes bt, response = ServerError IntegrityError\<rparr>
              else \<lparr>db = bt_store bt, flashes = bt_flashes bt @ [(BudgetsSaved, Success)],
                    response = Redirect (ManageBudgetsPage uid (Some m))\<rparr>)"
proof -
  have "u_id u = uid" using assms(1) by (rule get_user_id)
  then show ?thesis using assms
    by (simp add: manage_budgets_def Let_def split: sum.splits)
qed

text \<open>A submission answered with the redirect went through the loop and the commit.\<close>

lemma manage_budgets_saved:
  assumes "get_user st uid = Some u" and "bq_method rq = POST"
    and "bq_form_month rq = Some ms" and "strptime_ym rt ms = Some m"
    and "response (manage_budgets rt st uid rq) = Redirect (ManageBudgetsPage uid (Some m))"
  obtains bt where
    "budget_loop rt uid m (bq_form_budget rq) (categories_of st uid)
       (Inr \<lparr>bt_store = st, bt_flashes = [], bt_refused = False\<rparr>) = Inr bt"
    and "manage_budgets rt st uid rq =
         \<lparr>db = bt_store bt, flashes = bt_flashes bt @ [(BudgetsSaved, Success)],
          response = Redirect (ManageBudgetsPage uid (Some m))\<rparr>"
  using assms(5) unfolding manage_budgets_post [OF assms(1-4)]
  by (auto split: sum.splits if_splits)

lemma manage_budgets_db:
  "db (manage_budgets rt st uid rq) = st \<or>
   (\<exists>uid' m form cs bt.
      budget_loop rt uid' m form cs (Inr \<lparr>bt_store = st, bt_flashes = [], bt_refused = False\<rparr>)
        = Inr bt \<and>
      db (manage_budgets rt st uid rq) = bt_store bt)"
proof (cases "get_user st uid")
  case None
  then show ?thesis by (simp add: manage_budgets_def)
next
  case (Some u)
  show ?thesis
  proof (cases "bq_method rq = POST")
    case False
    with Some show ?thesis by (simp add: manage_budgets_def Let_def)
  next
    case True
    show ?thesis
    proof (cases "case bq_form_month rq of None \<Rightarrow> None | Some s \<Rightarrow> strptime_ym rt s")
      case None
      with Some True show ?thesis by (simp add: manage_budgets_def Let_def)
    next
      case m: (Some m)
      then obtain ms where ms: "bq_form_month rq = Some ms" "strptime_ym rt ms = Some m"
        by (auto split: option.splits)
      note post = manage_budgets_post [OF Some True ms]
      show ?thesis
      proof (cases "budget_loop rt uid m (bq_form_budget rq) (categories_of st uid)
                 (Inr \<lparr>bt_store = st, bt_flashes = [], bt_refused = False\<rparr>)")
        case (Inl fl)
        then show ?thesis by (simp add: post)
      next
        case (Inr bt)
        show ?thesis
        proof (cases "bt_refused bt")
          case True
          with Inr show ?thesis by (simp add: post)
        next
          case False
          with Inr have "db (manage_budgets rt st uid rq) = bt_store bt" by (simp add: post)
          with Inr show ?thesis by blast
        qed
      qed
    qed
  qed
qed

text \<open>A submission answered with an error leaves the store as it was.\<close>

lemma manage_budgets_refused:
  "response (manage_budgets rt st uid rq) = ServerError e \<Longrightarrow>
   db (manage_budgets rt st uid rq) = st"
  by (simp add: manage_budgets_def Let_def split: option.splits sum.splits if_splits)

lemma manage_budgets_inv: "budget_inv st \<Longrightarrow> budget_inv (db (manage_budgets rt st uid rq))"
  using manage_budgets_db [of rt st uid rq] loop_inv by fastforce

lemma manage_budgets_other_tables:
  "users (db (manage_budgets rt st uid rq)) = users st"
  "categories (db (manage_budgets rt st uid rq)) = categories st"
  "expenses (db (manage_budgets rt st uid rq)) = expenses st"
  using manage_budgets_db [of rt st uid rq] loop_other_tables by fastforce+

lemma run_inv: "budget_inv st \<Longrightarrow> budget_inv (run_budget_requests rt st rqs)"
  unfolding run_budget_requests_def
  by (induction rqs arbitrary: st) (auto simp: manage_budgets_inv)

lemma filter_single:
  "distinct (map budget_key bs) \<Longrightarrow> find (budget_matches uid cid m) bs = Some b \<Longrightarrow>
   filter (budget_matches uid cid m) bs = [b]"
proof (induction bs)
  case Nil
  then show ?case by simp
next
  case (Cons x bs)
  show ?case
  proof (cases "budget_matches uid cid m x")
    case True
    then have "x = b" using Cons.prems(2) by simp
    moreover have "filter (budget_matches uid cid m) bs = []"
      using Cons.prems(1) True by (force simp: filter_empty_conv budget_matches_key)
    ultimately show ?thesis using True by simp
  next
    case False
    then show ?thesis using Cons by simp
  qed
qed

lemma holds_single:
  assumes "budget_inv st" and "holds_amount st uid cid m a"
  shows "map b_amount (filter (budget_matches uid cid m) (budgets st)) = [a]"
proof -
  from assms(2) obtain b where b: "first_budget st uid cid m = Some b" and "b_amount b = a"
    by (auto simp: holds_amount_def split: option.splits)
  moreover have "filter (budget_matches uid cid m) (budgets st) = [b]"
    using assms(1) b by (intro filter_single) (simp_all add: budget_inv_def first_budget_def)
  ultimately show ?thesis by simp
qed

lemma post_good_holds:
  assumes "get_user st uid = Some u" and "bq_method rq = POST"
    and "bq_form_month rq = Some ms" and "strptime_ym rt ms = Some m"
    and "response (manage_budgets rt st uid rq) = Redirect (ManageBudgetsPage uid (Some m))"
    and "c \<in> set (categories_of st uid)"
    and "bq_form_budget rq (c_id c) = Some raw" and "strip rt raw \<noteq> []"
    and "float_of rt raw = Some a" and "\<not> flt a (Fin 0)"
    and "distinct (map b_id (budgets st))"
  shows "holds_amount (db (manage_budgets rt st uid rq)) uid (c_id c) m a"
proof -
  from assms(1-5) obtain bt where
    l: "budget_loop rt uid m (bq_form_budget rq) (categories_of st uid)
       (Inr \<lparr>bt_store = st, bt_flashes = [], bt_refused = False\<rparr>) = Inr bt"
    and o: "manage_budgets rt st uid rq =
         \<lparr>db = bt_store bt, flashes = bt_flashes bt @ [(BudgetsSaved, Success)],
          response = Redirect (ManageBudgetsPage uid (Some m))\<rparr>"
    by (rule manage_budgets_saved)
  have "c_id c \<in> c_id ` set (categories_of st uid)" using assms(6) by simp
  then have "holds_amount (bt_store bt) uid (c_id c) m a"
    using loop_good_holds [where form = "bq_form_budget rq" and cid = "c_id c" and raw = raw
        and rt = rt, OF assms(7-10) l] assms(11)
    by simp
  then show ?thesis by (simp add: o)
qed

lemma fle_not_flt: "fle (Fin 0) a \<Longrightarrow> \<not> flt a (Fin 0)"
  by (cases a) auto

lemma get_user_users: "users s = users t \<Longrightarrow> get_user s uid = get_user t uid"
  by (simp add: get_user_def)

lemma categories_of_categories: "categories s = categories t \<Longrightarrow> categories_of s uid = categories_of t uid"
  by (simp add: categories_of_def)


text \<open>
  A form in which no amount that parses is NaN is saved: no turn of the loop and no
  commit raises.
\<close>

lemma loop_storable:
  assumes "\<forall>c \<in> set cs. \<forall>raw. form (c_id c) = Some raw \<longrightarrow> float_of rt raw \<noteq> Some NaN"
    and "\<not> bt_refused bt"
  shows "\<exists>bt'. budget_loop rt uid m form cs (Inr bt) = Inr bt' \<and> \<not> bt_refused bt'"
  using assms
proof (induction cs arbitrary: bt)
  case Nil
  then show ?case by (simp add: budget_loop_def)
next
  case (Cons c cs)
  have "\<exists>bt1. budget_item rt uid m form c (Inr bt) = Inr bt1 \<and> \<not> bt_refused bt1"
    using Cons.prems by (auto simp: budget_item_def storable_def split: option.splits)
  then obtain bt1 where 1: "budget_item rt uid m form c (Inr bt) = Inr bt1"
    and 2: "\<not> bt_refused bt1" by blast
  from Cons.prems(1) have "\<forall>c \<in> set cs. \<forall>raw. form (c_id c) = Some raw \<longrightarrow>
      float_of rt raw \<noteq> Some NaN" by simp
  from Cons.IH [OF this 2] 1 show ?case by (simp add: budget_loop_def)
qed

lemma manage_budgets_storable:
  assumes "get_user st uid = Some u" and "bq_method rq = POST"
    and "bq_form_month rq = Some ms" and "strptime_ym rt ms = Some m"
    and "\<forall>c \<in> set (categories_of st uid). \<forall>raw.
           bq_form_budget rq (c_id c) = Some raw \<longrightarrow> float_of rt raw \<noteq> Some NaN"
  shows "response (manage_budgets rt st uid rq) = Redirect (ManageBudgetsPage uid (Some m))"
proof -
  obtain bt' where "budget_loop rt uid m (bq_form_budget rq) (categories_of st uid)
       (Inr \<lparr>bt_store = st, bt_flashes = [], bt_refused = False\<rparr>) = Inr bt'"
    and "\<not> bt_refused bt'"
    using loop_storable [where bt = "\<lparr>bt_store = st, bt_flashes = [], bt_refused = False\<rparr>",
      OF assms(5)] by auto
  then show ?thesis by (simp add: manage_budgets_post [OF assms(1-4)])
qed

text \<open>
  A submission that is saved: each amount that does not parse or is negative is reported
  for its category and leaves the budgets of that category as they were, each other
  amount is the amount of the category's budget, and the success message is flashed.
\<close>

lemma budget_batch_saved:
  assumes "get_user st uid = Some u" and "bq_method rq = POST"
    and "bq_form_month rq = Some ms" and "strptime_ym rt ms = Some m"
    and "response (manage_budgets rt st uid rq) = Redirect (ManageBudgetsPage uid (Some m))"
    and "distinct (map b_id (budgets st))"
    and "c \<in> set (categories_of st uid)"
    and "bq_form_budget rq (c_id c) = Some raw" and "strip rt raw \<noteq> []"
  shows "float_of rt raw = None \<or> (\<exists>a. float_of rt raw = Some a \<and> flt a (Fin 0)) \<Longrightarrow>
           (InvalidBudgetAmount (c_name c), Error) \<in> set (flashes (manage_budgets rt st uid rq)) \<and>
           filter (budget_matches uid (c_id c) m) (budgets (db (manage_budgets rt st uid rq)))
             = filter (budget_matches uid (c_id c) m) (budgets st)"
    and "float_of rt raw = Some a \<Longrightarrow> \<not> flt a (Fin 0) \<Longrightarrow>
           holds_amount (db (manage_budgets rt st uid rq)) uid (c_id c) m a \<and> a \<noteq> NaN"
    and "(BudgetsSaved, Success) \<in> set (flashes (manage_budgets rt st uid rq))"
proof -
  from assms(1-5) obtain bt where
    l: "budget_loop rt uid m (bq_form_budget rq) (categories_of st uid)
       (Inr \<lparr>bt_store = st, bt_flashes = [], bt_refused = False\<rparr>) = Inr bt"
    and o: "manage_budgets rt st uid rq =
         \<lparr>db = bt_store bt, flashes = bt_flashes bt @ [(BudgetsSaved, Success)],
          response = Redirect (ManageBudgetsPage uid (Some m))\<rparr>"
    by (rule manage_budgets_saved)
  show "(BudgetsSaved, Success) \<in> set (flashes (manage_budgets rt st uid rq))"
    by (simp add: o)
  show "(InvalidBudgetAmount (c_name c), Error) \<in> set (flashes (manage_budgets rt st uid rq)) \<and>
        filter (budget_matches uid (c_id c) m) (budgets (db (manage_budgets rt st uid rq)))
          = filter (budget_matches uid (c_id c) m) (budgets st)"
    if bad: "float_of rt raw = None \<or> (\<exists>a. float_of rt raw = Some a \<and> flt a (Fin 0))"
  proof -
    have "(InvalidBudgetAmount (c_name c), Error) \<in> set (bt_flashes bt)"
      using loop_bad_flash [where form = "bq_form_budget rq" and c = c and rt = rt,
          OF assms(8,9) bad l assms(7)] .
    moreover have "filter (budget_matches uid (c_id c) m) (budgets (bt_store bt))
          = filter (budget_matches uid (c_id c) m) (budgets st)"
      using loop_bad_frame [where form = "bq_form_budget rq" and cid = "c_id c" and rt = rt,
          OF assms(8,9) bad l] assms(6) by simp
    ultimately show ?thesis by (simp add: o)
  qed
  show "holds_amount (db (manage_budgets rt st uid rq)) uid (c_id c) m a \<and> a \<noteq> NaN"
    if a: "float_of rt raw = Some a" and pos: "\<not> flt a (Fin 0)"
  proof -
    have h: "holds_amount (db (manage_budgets rt st uid rq)) uid (c_id c) m a"
      using assms(1-5,7-9) a pos assms(6) by (rule post_good_holds)
    have "a \<noteq> NaN"
    proof
      assume "a = NaN"
      then have "float_of rt raw = Some NaN" using a by simp
      from loop_nan_refused [where form = "bq_form_budget rq" and c = c and rt = rt,
          OF assms(8,9) this l assms(7)]
      have "bt_refused bt" .
      moreover have "\<not> bt_refused bt"
        using assms(5) l unfolding manage_budgets_post [OF assms(1-4)] by (auto split: if_splits)
      ultimately show False by simp
    qed
    with h show ?thesis by simp
  qed
qed

lemmas budget_defs = manage_budgets_def budget_loop_def budget_item_def upsert_budget_def
  next_id_def storable_def

lemma first_submission_saved:
  "manage_budgets demo_runtime demo_store 1 first_submission =
   \<lparr>db = demo_store\<lparr>budgets := budgets demo_store @
          [\<lparr>b_id = 3, b_user_id = 1, b_category_id = 2, b_month = march, b_amount = Fin 250\<rparr>]\<rparr>,
    flashes = [(InvalidBudgetAmount ''Food'', Error), (BudgetsSaved, Success)],
    response = Redirect (ManageBudgetsPage 1 (Some march))\<rparr>"
  by (simp add: first_submission_def demo_defs eval_defs budget_defs)

lemma second_submission_saved:
  "manage_budgets demo_runtime
     (demo_store\<lparr>budgets := budgets demo_store @
          [\<lparr>b_id = 3, b_user_id = 1, b_category_id = 2, b_month = march, b_amount = Fin 250\<rparr>]\<rparr>)
     1 second_submission =
   \<lparr>db = demo_store\<lparr>budgets := budgets demo_store @
          [\<lparr>b_id = 3, b_user_id = 1, b_category_id = 2, b_month = march, b_amount = Fin 100\<rparr>]\<rparr>,
    flashes = [(BudgetsSaved, Success)],
    response = Redirect (ManageBudgetsPage 1 (Some march))\<rparr>"
  by (simp add: second_submission_def demo_defs eval_defs budget_defs)

text \<open>
  Claim C4. From a store with unique primary keys and at most one budget for a user,
  a category and a month: every sequence of requests to \<open>manage_budgets\<close> leaves such
  a store; two update-or-inserts for one triple leave exactly one budget for it, with
  the second amount; and when the form is submitted twice for the same month, each
  time with an amount the loop accepts for a category of the user, and each submission
  is saved (answered with the redirect to the month's page, not with the error of a
  refused commit), there is exactly one budget for the triple after each submission,
  with the amount of the first and then with the amount of the second. Every form none
  of whose amounts parses to NaN is saved (\<open>manage_budgets_storable\<close>); a form that is
  answered with the error leaves the store as it was (\<open>manage_budgets_refused\<close>).
\<close>

theorem upsert_budget_unique:
  assumes "budget_inv st"
  shows "budget_inv (run_budget_requests rt st rqs) \<and>
         map b_amount (filter (budget_matches uid cid m)
            (budgets (upsert_budget (upsert_budget st uid cid m a1) uid cid m a2))) = [a2] \<and>
         (get_user st uid = Some u \<and> c \<in> set (categories_of st uid) \<and>
          bq_method rq1 = POST \<and> bq_form_month rq1 = Some ms1 \<and> strptime_ym rt ms1 = Some m \<and>
          bq_form_budget rq1 (c_id c) = Some raw1 \<and> strip rt raw1 \<noteq> [] \<and>
          float_of rt raw1 = Some a1 \<and> \<not> flt a1 (Fin 0) \<and>
          response (manage_budgets rt st uid rq1) = Redirect (ManageBudgetsPage uid (Some m)) \<and>
          bq_method rq2 = POST \<and> bq_form_month rq2 = Some ms2 \<and> strptime_ym rt ms2 = Some m \<and>
          bq_form_budget rq2 (c_id c) = Some raw2 \<and> strip rt raw2 \<noteq> [] \<and>
          float_of rt raw2 = Some a2 \<and> \<not> flt a2 (Fin 0) \<and>
          response (manage_budgets rt (db (manage_budgets rt st uid rq1)) uid rq2)
            = Redirect (ManageBudgetsPage uid (Some m)) \<longrightarrow>
          map b_amount (filter (budget_matches uid (c_id c) m)
            (budgets (run_budget_requests rt st [(uid, rq1)]))) = [a1] \<and>
          map b_amount (filter (budget_matches uid (c_id c) m)
            (budgets (run_budget_requests rt st [(uid, rq1), (uid, rq2)]))) = [a2])"
proof -
  have 1: "budget_inv (run_budget_requests rt st rqs)"
    using assms by (rule run_inv)
  have "budget_inv (upsert_budget (upsert_budget st uid cid m a1) uid cid m a2)"
    using assms by (intro upsert_inv)
  then have 2: "map b_amount (filter (budget_matches uid cid m)
            (budgets (upsert_budget (upsert_budget st uid cid m a1) uid cid m a2))) = [a2]"
    using upsert_holds by (rule holds_single)
  have 3: "map b_amount (filter (budget_matches uid (c_id c) m)
            (budgets (run_budget_requests rt st [(uid, rq1)]))) = [a1] \<and>
          map b_amount (filter (budget_matches uid (c_id c) m)
            (budgets (run_budget_requests rt st [(uid, rq1), (uid, rq2)]))) = [a2]"
    if h: "get_user st uid = Some u \<and> c \<in> set (categories_of st uid) \<and>
          bq_method rq1 = POST \<and> bq_form_month rq1 = Some ms1 \<and> strptime_ym rt ms1 = Some m \<and>
          bq_form_budget rq1 (c_id c) = Some raw1 \<and> strip rt raw1 \<noteq> [] \<and>
          float_of rt raw1 = Some a1 \<and> \<not> flt a1 (Fin 0) \<and>
          response (manage_budgets rt st uid rq1) = Redirect (ManageBudgetsPage uid (Some m)) \<and>
          bq_method rq2 = POST \<and> bq_form_month rq2 = Some ms2 \<and> strptime_ym rt ms2 = Some m \<and>
          bq_form_budget rq2 (c_id c) = Some raw2 \<and> strip rt raw2 \<noteq> [] \<and>
          float_of rt raw2 = Some a2 \<and> \<not> flt a2 (Fin 0) \<and>
          response (manage_budgets rt (db (manage_budgets rt st uid rq1)) uid rq2)
            = Redirect (ManageBudgetsPage uid (Some m))"
  proof -
    let ?st1 = "db (manage_budgets rt st uid rq1)"
    let ?st2 = "db (manage_budgets rt ?st1 uid rq2)"
    have inv1: "budget_inv ?st1" using assms by (rule manage_budgets_inv)
    then have inv2: "budget_inv ?st2" by (rule manage_budgets_inv)
    have u1: "get_user ?st1 uid = Some u"
      using h by (simp add: get_user_users [OF manage_budgets_other_tables(1)])
    have c1: "c \<in> set (categories_of ?st1 uid)"
      using h by (simp add: categories_of_categories [OF manage_budgets_other_tables(2)])
    have "holds_amount ?st1 uid (c_id c) m a1"
      using h assms
      by (intro post_good_holds [where raw = raw1 and ms = ms1]) (simp_all add: budget_inv_def)
    with inv1 have r1: "map b_amount (filter (budget_matches uid (c_id c) m) (budgets ?st1)) = [a1]"
      by (rule holds_single)
    have "holds_amount ?st2 uid (c_id c) m a2"
      using u1 c1 h inv1
      by (intro post_good_holds [where raw = raw2 and ms = ms2]) (simp_all add: budget_inv_def)
    with inv2 have "map b_amount (filter (budget_matches uid (c_id c) m) (budgets ?st2)) = [a2]"
      by (rule holds_single)
    with r1 show ?thesis by (simp add: run_budget_requests_def)
  qed
  show ?thesis using 1 2 3 by blast
qed

theorem upsert_budget_unique_witness:
  "budget_inv demo_store \<and>
   budget_inv (run_budget_requests demo_runtime demo_store
      [(1, first_submission), (1, second_submission)]) \<and>
   map b_amount (filter (budget_matches 1 2 march)
      (budgets (run_budget_requests demo_runtime demo_store [(1, first_submission)])))
     = [Fin 250] \<and>
   map b_amount (filter (budget_matches 1 2 march)
      (budgets (run_budget_requests demo_runtime demo_store
         [(1, first_submission), (1, second_submission)]))) = [Fin 100]"
proof -
  have inv: "budget_inv demo_store"
    by (simp add: budget_inv_def budget_key_def demo_defs)
  have r1: "response (manage_budgets demo_runtime demo_store 1 first_submission)
      = Redirect (ManageBudgetsPage 1 (Some march))"
    by (simp add: first_submission_saved)
  have r2: "response (manage_budgets demo_runtime
        (db (manage_budgets demo_runtime demo_store 1 first_submission)) 1 second_submission)
      = Redirect (ManageBudgetsPage 1 (Some march))"
    by (simp add: first_submission_saved second_submission_saved)
  have h0: "get_user demo_store 1 = Some ann \<and> rent \<in> set (categories_of demo_store 1) \<and>
      bq_method first_submission = POST \<and> bq_form_month first_submission = Some ''2024-03'' \<and>
      strptime_ym demo_runtime ''2024-03'' = Some march \<and>
      bq_form_budget first_submission (c_id rent) = Some ''250'' \<and>
      strip demo_runtime ''250'' \<noteq> [] \<and>
      float_of demo_runtime ''250'' = Some (Fin 250) \<and> \<not> flt (Fin 250) (Fin 0)"
    by (simp add: demo_defs eval_defs first_submission_def)
  have h1: "bq_method second_submission = POST \<and>
      bq_form_month second_submission = Some ''2024-03'' \<and>
      strptime_ym demo_runtime ''2024-03'' = Some march \<and>
      bq_form_budget second_submission (c_id rent) = Some ''100'' \<and>
      strip demo_runtime ''100'' \<noteq> [] \<and>
      float_of demo_runtime ''100'' = Some (Fin 100) \<and> \<not> flt (Fin 100) (Fin 0)"
    by (simp add: demo_defs eval_defs second_submission_def)
  have h: "get_user demo_store 1 = Some ann \<and> rent \<in> set (categories_of demo_store 1) \<and>
      bq_method first_submission = POST \<and> bq_form_month first_submission = Some ''2024-03'' \<and>
      strptime_ym demo_runtime ''2024-03'' = Some march \<and>
      bq_form_budget first_submission (c_id rent) = Some ''250'' \<and>
      strip demo_runtime ''250'' \<noteq> [] \<and>
      float_of demo_runtime ''250'' = Some (Fin 250) \<and> \<not> flt (Fin 250) (Fin 0) \<and>
      response (manage_budgets demo_runtime demo_store 1 first_submission)
        = Redirect (ManageBudgetsPage 1 (Some march)) \<and>
      bq_method second_submission = POST \<and>
      bq_form_month second_submission = Some ''2024-03'' \<and>
      strptime_ym demo_runtime ''2024-03'' = Some march \<and>
      bq_form_budget second_submission (c_id rent) = Some ''100'' \<and>
      strip demo_runtime ''100'' \<noteq> [] \<and>
      float_of demo_runtime ''100'' = Some (Fin 100) \<and> \<not> flt (Fin 100) (Fin 0) \<and>
      response (manage_budgets demo_runtime
          (db (manage_budgets demo_runtime demo_store 1 first_submission)) 1 second_submission)
        = Redirect (ManageBudgetsPage 1 (Some march))"
    using h0 h1 r1 r2 by blast
  note t = upsert_budget_unique [OF inv, of demo_runtime
      "[(1, first_submission), (1, second_submission)]" 1 2 march "Fin 250" "Fin 100" ann rent
      first_submission "''2024-03''" "''250''" second_submission "''2024-03''" "''100''"]
  have 1: "budget_inv (run_budget_requests demo_runtime demo_store
      [(1, first_submission), (1, second_submission)])"
    using t by blast
  have 2: "map b_amount (filter (budget_matches 1 (c_id rent) march)
      (budgets (run_budget_requests demo_runtime demo_store [(1, first_submission)])))
       = [Fin 250] \<and>
    map b_amount (filter (budget_matches 1 (c_id rent) march)
      (budgets (run_budget_requests demo_runtime demo_store
         [(1, first_submission), (1, second_submission)]))) = [Fin 100]"
    using t [THEN conjunct2, THEN conjunct2, rule_format, OF h] .
  have cid: "c_id rent = 2" by (simp add: rent_def)
  show ?thesis using inv 1 2 unfolding cid by blast
qed

text \<open>
  Claim C8 at a form with 250 for Food and \<open>nan\<close> for Rent. \<open>float("nan")\<close> is NaN and
  \<open>amount < 0\<close> is false for it, so the loop reports no error for Rent and takes NaN as
  the budget; the store refuses it at the commit. The answer is the 500 of an
  IntegrityError, nothing is flashed, and the store is as before: the well-formed 250
  for Food of the same form is not committed (Food keeps its budget of 100).
\<close>

theorem budget_batch_nan:
  "float_of demo_runtime ''250'' = Some (Fin 250) \<and> fle (Fin 0) (Fin 250) \<and>
   float_of demo_runtime ''nan'' = Some NaN \<and> \<not> flt NaN (Fin 0) \<and> \<not> fle (Fin 0) NaN \<and>
   manage_budgets demo_runtime demo_store 1 nan_submission =
     \<lparr>db = demo_store, flashes = [], response = ServerError IntegrityError\<rparr> \<and>
   (InvalidBudgetAmount ''Rent'', Error)
     \<notin> set (flashes (manage_budgets demo_runtime demo_store 1 nan_submission)) \<and>
   map b_amount (filter (budget_matches 1 1 march)
     (budgets (db (manage_budgets demo_runtime demo_store 1 nan_submission)))) = [Fin 100]"
  by (simp add: nan_submission_def demo_defs eval_defs budget_defs)

text \<open>
  With the fields the other way round the exception comes earlier, from the flush
  before the query of the second turn.
\<close>

lemma nan_first_autoflush:
  "manage_budgets demo_runtime demo_store 1
     (nan_submission\<lparr>bq_form_budget := map_of [(1, ''nan''), (2, ''250'')]\<rparr>) =
     \<lparr>db = demo_store, flashes = [], response = ServerError IntegrityError\<rparr>"
  by (simp add: nan_submission_def demo_defs eval_defs budget_defs)

text \<open>
  The invariant \<open>budget_inv\<close> holds of the empty store, and the other handlers that
  write keep it: \<open>create_expense\<close> leaves the budgets alone and \<open>delete_user\<close> only removes rows.
\<close>

lemma budget_inv_empty:
  "budget_inv \<lparr>users = [], categories = [], budgets = [], expenses = []\<rparr>"
  by (simp add: budget_inv_def)

lemma create_expense_budgets: "budgets (db (create_expense rt st uid rq)) = budgets st"
  by (simp add: create_expense_def reject_def check_budget_db Let_def split: option.splits)

lemma delete_user_inv: "budget_inv st \<Longrightarrow> budget_inv (db (delete_user st uid))"
  by (simp add: delete_user_def budget_inv_def delete_user_steps_def delete_expenses_of_def
        delete_budgets_of_def delete_categories_of_def delete_user_row_def commit_def
        distinct_map_filter split: option.splits)


end
